theory Spec2Isabelle
  imports Complex_Main
begin

section \<open>Data model\<close>

text \<open>
  The metrics agent pulls time series and runs four detectors over each of them.
  Sample values are Python floats. The records are over a type \<open>'f\<close> of values.
  At \<open>real\<close> (the types \<open>Metric\<close>, \<open>Anomaly\<close>, ...) the detectors are
  read in exact arithmetic: no rounding, no NaN, no infinity. That reading is used
  for the statements that no rounding can change: concrete runs whose every
  intermediate value is a binary fraction, comparisons of sample values with
  configured bounds, and properties of the control flow. The statements that
  depend on how a quotient, a mean or a standard deviation is rounded are made over
  an arbitrary arithmetic, in the section on floating-point arithmetic.
  A \<open>datetime\<close> is modelled as an integer (seconds); the detectors only copy
  timestamps and compare them for equality. A Python \<open>dict\<close> is an association
  list in insertion order.
\<close>

type_synonym datetime = int
type_synonym label_set = "(string \<times> string) list"

datatype MetricType = COUNTER | GAUGE | HISTOGRAM | SUMMARY

record 'f MetricValue_of =
  mv_timestamp :: datetime
  mv_value :: 'f
  mv_labels :: label_set

record 'f Metric_of =
  m_name :: string
  m_type :: MetricType
  m_values :: "'f MetricValue_of list"
  m_description :: "string option"

type_synonym MetricValue = "real MetricValue_of"
type_synonym Metric = "real Metric_of"

definition get_values_array :: "'f Metric_of \<Rightarrow> 'f list" where
  "get_values_array metric = map mv_value (m_values metric)"

datatype AnomalyType = SPIKE | DROP | STATISTICAL_OUTLIER | THRESHOLD_BREACH | PATTERN_ANOMALY

datatype Severity = LOW | MEDIUM | HIGH | CRITICAL

text \<open>
  The human-readable description is an f-string over a few numbers; it is kept as
  the template together with the numbers it interpolates. Metadata values are
  numbers, strings, booleans or \<open>None\<close>.
\<close>

datatype 'f Description_of =
    Spike_text 'f
  | Drop_text 'f
  | ZScore_text 'f 'f 'f
  | IQR_text 'f string 'f 'f
  | Threshold_text string 'f string 'f 'f
  | Trend_text string
  | Deviation_text 'f 'f 'f

datatype 'f MetaVal_of = Num 'f | Str string | Flag bool | Nothing

type_synonym Description = "real Description_of"
type_synonym MetaVal = "real MetaVal_of"
type_synonym meta_dict = "(string \<times> MetaVal) list"

text \<open>
  The \<open>Anomaly\<close> dataclass. The random identity token \<open>anomaly_id\<close> (a fresh
  uuid4 per construction) is not part of the record.
\<close>

record 'f Anomaly_of =
  metric_name :: string
  anomaly_type :: AnomalyType
  severity :: Severity
  timestamp :: datetime
  an_value :: 'f
  detector_name :: string
  confidence :: 'f
  expected_value :: "'f option"
  description :: "'f Description_of option"
  metadata :: "(string \<times> 'f MetaVal_of) list"
  labels :: label_set
  start_time :: "datetime option"
  end_time :: "datetime option"
  llm_validated :: bool
  llm_status :: "string option"

type_synonym Anomaly = "real Anomaly_of"

datatype error = ValueError | LLMError

text \<open>\<open>Anomaly.__post_init__\<close>: the only validation of the dataclass.\<close>

definition post_init :: "Anomaly \<Rightarrow> error + Anomaly" where
  "post_init a =
     (if \<not> (0 \<le> confidence a \<and> confidence a \<le> 1) then Inl ValueError else Inr a)"

text \<open>The range of a confidence.\<close>

definition in_unit :: "real \<Rightarrow> bool" where
  "in_unit c = (0 \<le> c \<and> c \<le> 1)"

text \<open>
  \<open>BaseDetector._create_anomaly\<close>: the helper every detector builds its anomalies
  with. It passes neither \<open>labels\<close> nor the time range nor the LLM fields, so
  these take the dataclass defaults.
\<close>

definition create_anomaly ::
  "string \<Rightarrow> Metric \<Rightarrow> AnomalyType \<Rightarrow> Severity \<Rightarrow> datetime \<Rightarrow> real \<Rightarrow> real \<Rightarrow>
   Description \<Rightarrow> real option \<Rightarrow> meta_dict \<Rightarrow> error + Anomaly" where
  "create_anomaly self_name metric atype sev ts v conf descr expected md =
     post_init \<lparr>
       metric_name = m_name metric,
       anomaly_type = atype,
       severity = sev,
       timestamp = ts,
       an_value = v,
       detector_name = self_name,
       confidence = conf,
       expected_value = expected,
       description = Some descr,
       metadata = md,
       labels = [],
       start_time = None,
       end_time = None,
       llm_validated = False,
       llm_status = None \<rparr>"

text \<open>\<open>BaseDetector.validate_metric\<close>.\<close>

definition validate_metric :: "'f Metric_of \<Rightarrow> nat \<Rightarrow> bool" where
  "validate_metric metric min_points = (\<not> length (m_values metric) < min_points)"

text \<open>
  Every detector has the same loop shape: walk a list of positions (or samples),
  and for each one either append one anomaly, skip, or let an exception end the
  whole call.
\<close>

fun emit_loop :: "('i \<Rightarrow> error + 'a option) \<Rightarrow> 'i list \<Rightarrow> 'a list \<Rightarrow> error + 'a list" where
  "emit_loop body [] anomalies = Inr anomalies"
| "emit_loop body (i # rest) anomalies =
     (case body i of
        Inl e \<Rightarrow> Inl e
      | Inr None \<Rightarrow> emit_loop body rest anomalies
      | Inr (Some a) \<Rightarrow> emit_loop body rest (anomalies @ [a]))"

text \<open>
  What one round of such a loop emits when it does not raise, and the round that a
  fallible constructor call makes.
\<close>

definition emitted :: "(error + 'a option) \<Rightarrow> 'a option" where
  "emitted r = (case r of Inl e \<Rightarrow> None | Inr x \<Rightarrow> x)"

definition found :: "error + 'a \<Rightarrow> error + 'a option" where
  "found r = (case r of Inl e \<Rightarrow> Inl e | Inr a \<Rightarrow> Inr (Some a))"

text \<open>Python's \<open>round(x, 2)\<close> on exact values: round half to even at two decimals.\<close>

definition round_half_even :: "real \<Rightarrow> int" where
  "round_half_even x =
     (let f = \<lfloor>x\<rfloor>; r = x - of_int f in
      if r < 1/2 then f else if r > 1/2 then f + 1 else if even f then f else f + 1)"

definition round2 :: "real \<Rightarrow> real" where
  "round2 x = of_int (round_half_even (x * 100)) / 100"

section \<open>SpikeDetector\<close>

record 'f SpikeConfig_of =
  spike_enabled :: bool
  sensitivity :: 'f
  min_change_percent :: 'f

type_synonym SpikeConfig = "real SpikeConfig_of"

text \<open>The defaults of \<open>SpikeDetector.__init__\<close>.\<close>

definition spike_defaults :: SpikeConfig where
  "spike_defaults = \<lparr> spike_enabled = True, sensitivity = 8/10, min_change_percent = 50 \<rparr>"

definition spike_calculate_severity :: "real \<Rightarrow> Severity" where
  "spike_calculate_severity change_percent =
     (if change_percent \<ge> 200 then CRITICAL
      else if change_percent \<ge> 100 then HIGH
      else if change_percent \<ge> 75 then MEDIUM
      else LOW)"

text \<open>
  The percent change of one consecutive pair, in exact arithmetic; \<open>None\<close> is
  the \<open>continue\<close> of the zero-to-zero case. The value the program computes can
  differ from it in the last place (\<open>spike_percent_change_fl\<close> below).
\<close>

definition spike_percent_change :: "real \<Rightarrow> real \<Rightarrow> real option" where
  "spike_percent_change previous_value current_value =
     (if previous_value = 0 then
        (if current_value \<noteq> 0 then Some 100 else None)
      else Some (((current_value - previous_value) / previous_value) * 100))"

text \<open>The body of the loop of \<open>SpikeDetector.detect\<close> at position \<open>i\<close>.\<close>

definition spike_body :: "SpikeConfig \<Rightarrow> Metric \<Rightarrow> nat \<Rightarrow> error + Anomaly option" where
  "spike_body cfg metric i =
     (let vals = get_values_array metric;
          previous_value = vals ! (i - 1);
          current_value = vals ! i
      in case spike_percent_change previous_value current_value of
           None \<Rightarrow> Inr None
         | Some percent_change \<Rightarrow>
             (let abs_change = \<bar>percent_change\<bar> in
              if abs_change \<ge> min_change_percent cfg then
                (let atype = (if percent_change > 0 then SPIKE else DROP);
                     descr = (if percent_change > 0 then Spike_text percent_change
                              else Drop_text abs_change);
                     sev = spike_calculate_severity abs_change;
                     conf = min (abs_change / 100) 1 * sensitivity cfg
                 in case create_anomaly ''SpikeDetector'' metric atype sev
                           (mv_timestamp (m_values metric ! i)) current_value conf descr
                           (Some previous_value)
                           [(''percent_change'', Num (round2 percent_change)),
                            (''previous_value'', Num previous_value),
                            (''change_magnitude'', Num abs_change)] of
                      Inl e \<Rightarrow> Inl e
                    | Inr a \<Rightarrow> Inr (Some a))
              else Inr None))"

definition spike_detect :: "SpikeConfig \<Rightarrow> Metric \<Rightarrow> error + Anomaly list" where
  "spike_detect cfg metric =
     (if \<not> spike_enabled cfg then Inr []
      else if \<not> validate_metric metric 2 then Inr []
      else emit_loop (spike_body cfg metric) [1 ..< length (get_values_array metric)] [])"

section \<open>ThresholdDetector\<close>

type_synonym threshold_dict = "(string \<times> real) list"

record ThresholdConfig =
  threshold_enabled :: bool
  thresholds :: "(string \<times> threshold_dict) list"

subsection \<open>The regular expressions that bound resolution builds\<close>

text \<open>
  \<open>_get_metric_thresholds\<close> hands \<open>pattern.replace('*', '.*')\<close> to Python's
  \<open>re.match\<close>. The model of \<open>re.match\<close> covers the syntax such a pattern is
  made of: ordinary characters, \<open>.\<close> (any character but a newline) and a \<open>*\<close>
  after one of these. Any other special character of the \<open>re\<close> syntax makes the
  model answer \<open>Unmodelled\<close>. That answer is not an outcome of the code, which
  goes on with whatever \<open>re.match\<close> decides; the statements about resolution are
  therefore restricted to patterns that \<open>re_parse\<close> accepts.
\<close>

datatype re_atom = Lit char | Dot

datatype re_item = One re_atom | Many re_atom

datatype re_error = Unmodelled

definition replace_star :: "string \<Rightarrow> string" where
  "replace_star pattern = concat (map (\<lambda>c. if c = CHR ''*'' then ''.*'' else [c]) pattern)"

definition re_special :: "char \<Rightarrow> bool" where
  "re_special c = (c \<in> set ''^$*+?{}[]|()'' \<or> c = CHR 0x5C)"

text \<open>A character that stands for itself in a regular expression.\<close>

definition re_literal :: "char \<Rightarrow> bool" where
  "re_literal c = (\<not> re_special c \<and> c \<noteq> CHR ''.'')"

definition re_atom_of :: "char \<Rightarrow> re_atom" where
  "re_atom_of c = (if c = CHR ''.'' then Dot else Lit c)"

fun re_parse :: "string \<Rightarrow> re_item list option" where
  "re_parse [] = Some []"
| "re_parse [c] = (if re_special c then None else Some [One (re_atom_of c)])"
| "re_parse (c # d # rest) =
     (if re_special c then None
      else if d = CHR ''*'' then map_option (Cons (Many (re_atom_of c))) (re_parse rest)
      else map_option (Cons (One (re_atom_of c))) (re_parse (d # rest)))"

fun atom_ok :: "re_atom \<Rightarrow> char \<Rightarrow> bool" where
  "atom_ok (Lit c) x = (x = c)"
| "atom_ok Dot x = (x \<noteq> CHR 0x0A)"

text \<open>
  \<open>re.match\<close> succeeds when the expression matches at the start of the string,
  whatever follows the match.
\<close>

fun match_items :: "re_item list \<Rightarrow> string \<Rightarrow> bool" where
  "match_items [] s = True"
| "match_items (One a # items) [] = False"
| "match_items (One a # items) (x # s) = (atom_ok a x \<and> match_items items s)"
| "match_items (Many a # items) [] = match_items items []"
| "match_items (Many a # items) (x # s) =
     ((atom_ok a x \<and> match_items (Many a # items) s) \<or> match_items items (x # s))"

definition re_match :: "string \<Rightarrow> string \<Rightarrow> re_error + bool" where
  "re_match pattern_regex s =
     (case re_parse pattern_regex of
        None \<Rightarrow> Inl Unmodelled
      | Some items \<Rightarrow> Inr (match_items items s))"

text \<open>
  The reading of "the expression matches the whole of a string" that the matcher
  is compared with: each item consumes one character, or any run of characters, that
  its atom accepts.
\<close>

fun matches_whole :: "re_item list \<Rightarrow> string \<Rightarrow> bool" where
  "matches_whole [] s = (s = [])"
| "matches_whole (One a # items) s =
     (case s of [] \<Rightarrow> False | x # s' \<Rightarrow> atom_ok a x \<and> matches_whole items s')"
| "matches_whole (Many a # items) s =
     (\<exists>k \<le> length s. (\<forall>x \<in> set (take k s). atom_ok a x) \<and> matches_whole items (drop k s))"

subsection \<open>Bound resolution and checks\<close>

text \<open>The loop over the configured patterns in \<open>_get_metric_thresholds\<close>.\<close>

fun pattern_loop :: "(string \<times> threshold_dict) list \<Rightarrow> string \<Rightarrow> re_error + threshold_dict option" where
  "pattern_loop [] mname = Inr None"
| "pattern_loop ((pattern, th) # rest) mname =
     (if CHR ''*'' \<in> set pattern then
        (case re_match (replace_star pattern) mname of
           Inl e \<Rightarrow> Inl e
         | Inr True \<Rightarrow> Inr (Some th)
         | Inr False \<Rightarrow> pattern_loop rest mname)
      else pattern_loop rest mname)"

definition get_metric_thresholds :: "ThresholdConfig \<Rightarrow> string \<Rightarrow> re_error + threshold_dict option" where
  "get_metric_thresholds cfg mname =
     (case map_of (thresholds cfg) mname of
        Some th \<Rightarrow> Inr (Some th)
      | None \<Rightarrow> pattern_loop (thresholds cfg) mname)"

text \<open>
  \<open>_create_threshold_anomaly\<close>. The description template upper-cases the
  threshold type; the template keeps the type as it is.
\<close>

definition create_threshold_anomaly ::
  "Metric \<Rightarrow> real \<Rightarrow> datetime \<Rightarrow> real \<Rightarrow> string \<Rightarrow> Severity \<Rightarrow> error + Anomaly" where
  "create_threshold_anomaly metric v ts threshold_value threshold_type sev =
     (let lower = (threshold_type \<in> set [''min'', ''min_rate'']);
          excess = (if lower then threshold_value - v else v - threshold_value);
          direction = (if lower then ''en dessous'' else ''au-dessus'');
          excess_percent = (if threshold_value \<noteq> 0 then excess / threshold_value * 100 else 0);
          descr = Threshold_text threshold_type v direction threshold_value \<bar>excess_percent\<bar>;
          conf = 1
      in create_anomaly ''ThresholdDetector'' metric THRESHOLD_BREACH sev ts v conf descr
           (Some threshold_value)
           [(''threshold_type'', Str threshold_type),
            (''threshold_value'', Num threshold_value),
            (''excess'', Num (round2 excess)),
            (''excess_percent'', Num (round2 excess_percent))])"

text \<open>
  One guard of \<open>_check_thresholds\<close>: the key is configured and the comparison
  with its bound holds.
\<close>

definition breached :: "threshold_dict \<Rightarrow> string \<Rightarrow> (real \<Rightarrow> bool) \<Rightarrow> real option" where
  "breached th key test =
     (case map_of th key of None \<Rightarrow> None | Some bound \<Rightarrow> if test bound then Some bound else None)"

definition check_thresholds ::
  "Metric \<Rightarrow> real \<Rightarrow> datetime \<Rightarrow> threshold_dict \<Rightarrow> error + Anomaly option" where
  "check_thresholds metric v ts th =
     (case breached th ''critical'' (\<lambda>b. v \<ge> b) of
        Some b \<Rightarrow> found (create_threshold_anomaly metric v ts b ''critical'' CRITICAL)
      | None \<Rightarrow>
     (case breached th ''warning'' (\<lambda>b. v \<ge> b) of
        Some b \<Rightarrow> found (create_threshold_anomaly metric v ts b ''warning'' HIGH)
      | None \<Rightarrow>
     (case breached th ''max'' (\<lambda>b. v > b) of
        Some b \<Rightarrow> found (create_threshold_anomaly metric v ts b ''max'' HIGH)
      | None \<Rightarrow>
     (case breached th ''min'' (\<lambda>b. v < b) of
        Some b \<Rightarrow> found (create_threshold_anomaly metric v ts b ''min'' MEDIUM)
      | None \<Rightarrow>
     (case breached th ''max_rate'' (\<lambda>b. v > b) of
        Some b \<Rightarrow> found (create_threshold_anomaly metric v ts b ''max_rate'' HIGH)
      | None \<Rightarrow>
     (case breached th ''min_rate'' (\<lambda>b. v < b) of
        Some b \<Rightarrow> found (create_threshold_anomaly metric v ts b ''min_rate'' MEDIUM)
      | None \<Rightarrow> Inr None))))))"

datatype detect_error = Raised error | Regex re_error

text \<open>
  \<open>ThresholdDetector.detect\<close>. An empty bound set is falsy in Python, so it is
  handled like a missing one.
\<close>

definition threshold_detect :: "ThresholdConfig \<Rightarrow> Metric \<Rightarrow> detect_error + Anomaly list" where
  "threshold_detect cfg metric =
     (if \<not> threshold_enabled cfg then Inr []
      else if \<not> validate_metric metric 1 then Inr []
      else case get_metric_thresholds cfg (m_name metric) of
             Inl e \<Rightarrow> Inl (Regex e)
           | Inr None \<Rightarrow> Inr []
           | Inr (Some th) \<Rightarrow>
               if th = [] then Inr []
               else (case emit_loop (\<lambda>mv. check_thresholds metric (mv_value mv) (mv_timestamp mv) th)
                            (m_values metric) [] of
                       Inl e \<Rightarrow> Inl (Raised e)
                     | Inr anomalies \<Rightarrow> Inr anomalies))"

section \<open>StatisticalDetector\<close>

text \<open>
  The numpy reductions the detectors use, over real numbers: the exact values
  that numpy approximates. \<open>np.std\<close> is the population standard deviation; the
  value numpy computes for it can be nonzero where the exact one is zero, so no
  statement below rests on \<open>np_std xs = 0\<close> for a series that numpy does not
  reduce exactly. \<open>np.percentile\<close> interpolates linearly between the two order
  statistics around position \<open>(n - 1) * q / 100\<close>. Both percentile and median
  are only called on series of at least ten samples.
\<close>

definition np_mean :: "real list \<Rightarrow> real" where
  "np_mean xs = sum_list xs / real (length xs)"

definition np_std :: "real list \<Rightarrow> real" where
  "np_std xs = sqrt (np_mean (map (\<lambda>x. \<bar>x - np_mean xs\<bar> ^ 2) xs))"

definition np_percentile :: "real list \<Rightarrow> real \<Rightarrow> real" where
  "np_percentile xs q =
     (let s = sort xs;
          n = length s;
          h = (real n - 1) * q / 100;
          lo = nat \<lfloor>h\<rfloor>;
          hi = min (lo + 1) (n - 1)
      in s ! lo + (h - real lo) * (s ! hi - s ! lo))"

definition np_median :: "real list \<Rightarrow> real" where
  "np_median xs =
     (let s = sort xs; n = length s in
      if odd n then s ! (n div 2) else (s ! (n div 2 - 1) + s ! (n div 2)) / 2)"

record 'f StatConfig_of =
  stat_enabled :: bool
  z_score_threshold :: 'f
  iqr_multiplier :: 'f

type_synonym StatConfig = "real StatConfig_of"

definition stat_defaults :: StatConfig where
  "stat_defaults = \<lparr> stat_enabled = True, z_score_threshold = 3, iqr_multiplier = 3/2 \<rparr>"

definition calculate_zscore_severity :: "real \<Rightarrow> Severity" where
  "calculate_zscore_severity z_score =
     (if z_score \<ge> 5 then CRITICAL
      else if z_score \<ge> 4 then HIGH
      else if z_score \<ge> 7/2 then MEDIUM
      else LOW)"

definition calculate_iqr_severity :: "real \<Rightarrow> Severity" where
  "calculate_iqr_severity normalized_distance =
     (if normalized_distance \<ge> 3 then CRITICAL
      else if normalized_distance \<ge> 2 then HIGH
      else if normalized_distance \<ge> 1 then MEDIUM
      else LOW)"

text \<open>The body of the loop over the outlier positions of the Z-score test.\<close>

definition zscore_body :: "Metric \<Rightarrow> real list \<Rightarrow> real \<Rightarrow> real \<Rightarrow> nat \<Rightarrow> error + Anomaly option" where
  "zscore_body metric vals mean std idx =
     (let v = vals ! idx;
          z_score = \<bar>(v - mean) / std\<bar>;
          sev = calculate_zscore_severity z_score;
          conf = min (z_score / 5) 1
      in found (create_anomaly ''StatisticalDetector'' metric STATISTICAL_OUTLIER sev
                  (mv_timestamp (m_values metric ! idx)) v conf (ZScore_text v z_score mean)
                  (Some mean)
                  [(''z_score'', Num (round2 z_score)),
                   (''mean'', Num (round2 mean)),
                   (''std'', Num (round2 std)),
                   (''detection_method'', Str ''z_score'')]))"

definition detect_zscore_anomalies :: "StatConfig \<Rightarrow> Metric \<Rightarrow> real list \<Rightarrow> error + Anomaly list" where
  "detect_zscore_anomalies cfg metric vals =
     (let mean = np_mean vals;
          std = np_std vals
      in if std = 0 then Inr []
         else
           (let z_scores = map (\<lambda>v. \<bar>(v - mean) / std\<bar>) vals;
                outlier_indices = filter (\<lambda>i. z_scores ! i > z_score_threshold cfg)
                                    [0 ..< length vals]
            in emit_loop (zscore_body metric vals mean std) outlier_indices []))"

text \<open>The body of the loop over the outlier positions of the IQR test.\<close>

definition iqr_body ::
  "Metric \<Rightarrow> real list \<Rightarrow> real \<Rightarrow> real \<Rightarrow> real \<Rightarrow> real \<Rightarrow> real \<Rightarrow> nat \<Rightarrow> error + Anomaly option" where
  "iqr_body metric vals q1 q3 iqr lower_bound upper_bound idx =
     (let v = vals ! idx;
          distance = (if v < lower_bound then lower_bound - v else v - upper_bound);
          bound_type = (if v < lower_bound then ''inferieure'' else ''superieure'');
          normalized_distance = (if iqr > 0 then distance / iqr else 0);
          sev = calculate_iqr_severity normalized_distance;
          conf = min (normalized_distance / 2) 1;
          expected = np_median vals
      in found (create_anomaly ''StatisticalDetector'' metric STATISTICAL_OUTLIER sev
                  (mv_timestamp (m_values metric ! idx)) v conf
                  (IQR_text v bound_type lower_bound upper_bound)
                  (Some expected)
                  [(''q1'', Num (round2 q1)),
                   (''q3'', Num (round2 q3)),
                   (''iqr'', Num (round2 iqr)),
                   (''lower_bound'', Num (round2 lower_bound)),
                   (''upper_bound'', Num (round2 upper_bound)),
                   (''detection_method'', Str ''iqr'')]))"

definition detect_iqr_anomalies :: "StatConfig \<Rightarrow> Metric \<Rightarrow> real list \<Rightarrow> error + Anomaly list" where
  "detect_iqr_anomalies cfg metric vals =
     (let q1 = np_percentile vals 25;
          q3 = np_percentile vals 75;
          iqr = q3 - q1
      in if iqr = 0 then Inr []
         else
           (let lower_bound = q1 - (iqr_multiplier cfg * iqr);
                upper_bound = q3 + (iqr_multiplier cfg * iqr);
                outlier_indices = filter (\<lambda>i. vals ! i < lower_bound \<or> vals ! i > upper_bound)
                                    [0 ..< length vals]
            in emit_loop (iqr_body metric vals q1 q3 iqr lower_bound upper_bound)
                 outlier_indices []))"

text \<open>
  \<open>_deduplicate_anomalies\<close>. The dictionary \<open>by_timestamp\<close> is an association list
  in insertion order; \<open>group_add\<close> is one round of the grouping loop.
\<close>

fun group_add ::
  "'f Anomaly_of \<Rightarrow> (datetime \<times> 'f Anomaly_of list) list \<Rightarrow> (datetime \<times> 'f Anomaly_of list) list" where
  "group_add a [] = [(timestamp a, [a])]"
| "group_add a ((ts, anoms) # rest) =
     (if ts = timestamp a then (ts, anoms @ [a]) # rest else (ts, anoms) # group_add a rest)"

definition by_timestamp :: "'f Anomaly_of list \<Rightarrow> (datetime \<times> 'f Anomaly_of list) list" where
  "by_timestamp anomalies = foldl (\<lambda>d a. group_add a d) [] anomalies"

text \<open>
  Python's \<open>max(anoms, key=lambda a: a.confidence)\<close>: the first element of maximal
  key; it raises on an empty list.
\<close>

fun max_from :: "Anomaly \<Rightarrow> Anomaly list \<Rightarrow> Anomaly" where
  "max_from best [] = best"
| "max_from best (a # rest) =
     (if confidence a > confidence best then max_from a rest else max_from best rest)"

definition max_by_confidence :: "Anomaly list \<Rightarrow> error + Anomaly" where
  "max_by_confidence anoms =
     (case anoms of [] \<Rightarrow> Inl ValueError | a # rest \<Rightarrow> Inr (max_from a rest))"

fun best_of_groups :: "(datetime \<times> Anomaly list) list \<Rightarrow> Anomaly list \<Rightarrow> error + Anomaly list" where
  "best_of_groups [] deduplicated = Inr deduplicated"
| "best_of_groups ((ts, anoms) # rest) deduplicated =
     (case max_by_confidence anoms of
        Inl e \<Rightarrow> Inl e
      | Inr best \<Rightarrow> best_of_groups rest (deduplicated @ [best]))"

definition deduplicate_anomalies :: "Anomaly list \<Rightarrow> error + Anomaly list" where
  "deduplicate_anomalies anomalies =
     (if anomalies = [] then Inr [] else best_of_groups (by_timestamp anomalies) [])"

definition stat_detect :: "StatConfig \<Rightarrow> Metric \<Rightarrow> error + Anomaly list" where
  "stat_detect cfg metric =
     (if \<not> stat_enabled cfg then Inr []
      else if \<not> validate_metric metric 10 then Inr []
      else
        (let vals = get_values_array metric in
         case detect_zscore_anomalies cfg metric vals of
           Inl e \<Rightarrow> Inl e
         | Inr zscore_anomalies \<Rightarrow>
             (case detect_iqr_anomalies cfg metric vals of
                Inl e \<Rightarrow> Inl e
              | Inr iqr_anomalies \<Rightarrow>
                  deduplicate_anomalies (zscore_anomalies @ iqr_anomalies))))"

section \<open>PatternDetector\<close>

record PatternConfig =
  pattern_enabled :: bool
  window_size :: nat
  seasonality_period :: nat

definition pattern_defaults :: PatternConfig where
  "pattern_defaults = \<lparr> pattern_enabled = True, window_size = 24, seasonality_period = 3600 \<rparr>"

text \<open>Python's \<open>round(x, 4)\<close> and the slice \<open>xs[a:b]\<close> for \<open>0 \<le> a\<close>.\<close>

definition round4 :: "real \<Rightarrow> real" where
  "round4 x = of_int (round_half_even (x * 10000)) / 10000"

definition py_slice :: "'a list \<Rightarrow> nat \<Rightarrow> nat \<Rightarrow> 'a list" where
  "py_slice xs a b = take (b - a) (drop a xs)"

text \<open>
  \<open>np.gradient\<close> on a one-dimensional array with unit spacing: one-sided
  differences at both ends, central differences inside. It raises on fewer than two
  elements.
\<close>

definition np_gradient :: "real list \<Rightarrow> error + real list" where
  "np_gradient vals =
     (let n = length vals in
      if n < 2 then Inl ValueError
      else Inr (map (\<lambda>i. if i = 0 then vals ! 1 - vals ! 0
                          else if i = n - 1 then vals ! (n - 1) - vals ! (n - 2)
                          else (vals ! (i + 1) - vals ! (i - 1)) / 2)
                  [0 ..< n]))"

text \<open>
  \<open>np.convolve(gradient, np.ones(window) / window, mode='valid')\<close>. Either
  argument empty raises; otherwise the shorter array slides over the longer one.
\<close>

definition smooth_gradient :: "real list \<Rightarrow> nat \<Rightarrow> error + real list" where
  "smooth_gradient gradient window =
     (let n = length gradient in
      if window = 0 \<or> n = 0 then Inl ValueError
      else if window \<le> n then
        Inr (map (\<lambda>k. sum_list (map (\<lambda>j. gradient ! (k + j) * (1 / real window)) [0 ..< window]))
               [0 ..< n - window + 1])
      else
        Inr (map (\<lambda>k. sum_list (map (\<lambda>j. gradient ! j * (1 / real window)) [0 ..< n]))
               [0 ..< window - n + 1]))"

text \<open>
  The body of the loop over the sign changes in \<open>_detect_trend_changes\<close>. Both
  slices are non-empty when the means are taken. The confidence divides by the
  standard deviation of the gradient; a division by zero is infinite in floating
  point and the minimum with 1.0 is then 1.0.
\<close>

definition trend_body ::
  "Metric \<Rightarrow> real list \<Rightarrow> real list \<Rightarrow> nat \<Rightarrow> nat \<Rightarrow> error + Anomaly option" where
  "trend_body metric vals gradient window idx =
     (let real_idx = idx + window div 2 + 1 in
      if real_idx \<ge> length vals then Inr None
      else
        (let v = vals ! real_idx;
             before_trend = np_mean (py_slice gradient (real_idx - 5) real_idx);
             after_trend = np_mean (py_slice gradient real_idx (min (length gradient) (real_idx + 5)));
             std = np_std gradient;
             conf = (if std = 0 then 1 else min (\<bar>after_trend - before_trend\<bar> / std) 1);
             emit = (\<lambda>trend_type.
               found (create_anomaly ''PatternDetector'' metric PATTERN_ANOMALY MEDIUM
                        (mv_timestamp (m_values metric ! real_idx)) v conf
                        (Trend_text trend_type) None
                        [(''trend_before'', Num (round4 before_trend)),
                         (''trend_after'', Num (round4 after_trend)),
                         (''trend_type'', Str trend_type),
                         (''detection_method'', Str ''trend_change'')]))
         in if before_trend > 0 \<and> after_trend < 0 then emit ''hausse vers baisse''
            else if before_trend < 0 \<and> after_trend > 0 then emit ''baisse vers hausse''
            else Inr None))"

definition detect_trend_changes :: "PatternConfig \<Rightarrow> Metric \<Rightarrow> real list \<Rightarrow> error + Anomaly list" where
  "detect_trend_changes cfg metric vals =
     (case np_gradient vals of
        Inl e \<Rightarrow> Inl e
      | Inr gradient \<Rightarrow>
          (let window = window_size cfg div 2 in
           case smooth_gradient gradient window of
             Inl e \<Rightarrow> Inl e
           | Inr smoothed_gradient \<Rightarrow>
               (let signs = map sgn smoothed_gradient;
                    sign_changes = map (\<lambda>k. signs ! (k + 1) - signs ! k) [0 ..< length signs - 1];
                    significant_changes = filter (\<lambda>k. \<bar>sign_changes ! k\<bar> > 0)
                                            [0 ..< length sign_changes]
                in emit_loop (trend_body metric vals gradient window) significant_changes [])))"

definition calculate_moving_average :: "real list \<Rightarrow> nat \<Rightarrow> real list" where
  "calculate_moving_average vals window =
     map (\<lambda>i. if i < window then np_mean (take (i + 1) vals)
               else np_mean (py_slice vals (i - window) i))
       [0 ..< length vals]"

definition calculate_moving_std :: "real list \<Rightarrow> nat \<Rightarrow> real list" where
  "calculate_moving_std vals window =
     map (\<lambda>i. if i < window then np_std (take (i + 1) vals)
               else np_std (py_slice vals (i - window) i))
       [0 ..< length vals]"

text \<open>The body of the loop of \<open>_detect_moving_average_deviations\<close>.\<close>

definition ma_body :: "Metric \<Rightarrow> real list \<Rightarrow> real list \<Rightarrow> real list \<Rightarrow> nat \<Rightarrow> error + Anomaly option" where
  "ma_body metric vals ma ma_std i =
     (let v = vals ! i;
          expected = ma ! i;
          std = ma_std ! i
      in if std = 0 then Inr None
         else
           (let deviation = \<bar>v - expected\<bar> / std in
            if deviation > 5/2 then
              (let sev = (if deviation > 4 then HIGH
                          else if deviation > 3 then MEDIUM
                          else LOW);
                   conf = min (deviation / 5) 1
               in found (create_anomaly ''PatternDetector'' metric PATTERN_ANOMALY sev
                           (mv_timestamp (m_values metric ! i)) v conf
                           (Deviation_text v expected deviation)
                           (Some expected)
                           [(''deviation_sigma'', Num (round2 deviation)),
                            (''moving_average'', Num (round2 expected)),
                            (''moving_std'', Num (round2 std)),
                            (''detection_method'', Str ''moving_average'')]))
            else Inr None))"

definition detect_moving_average_deviations ::
  "PatternConfig \<Rightarrow> Metric \<Rightarrow> real list \<Rightarrow> error + Anomaly list" where
  "detect_moving_average_deviations cfg metric vals =
     (let ma = calculate_moving_average vals (window_size cfg);
          ma_std = calculate_moving_std vals (window_size cfg);
          start_idx = window_size cfg
      in emit_loop (ma_body metric vals ma ma_std) [start_idx ..< length vals] [])"

definition pattern_detect :: "PatternConfig \<Rightarrow> Metric \<Rightarrow> error + Anomaly list" where
  "pattern_detect cfg metric =
     (if \<not> pattern_enabled cfg then Inr []
      else
        (let min_points = window_size cfg * 2 in
         if \<not> validate_metric metric min_points then Inr []
         else
           (let vals = get_values_array metric in
            case detect_trend_changes cfg metric vals of
              Inl e \<Rightarrow> Inl e
            | Inr trend_anomalies \<Rightarrow>
                (case detect_moving_average_deviations cfg metric vals of
                   Inl e \<Rightarrow> Inl e
                 | Inr ma_anomalies \<Rightarrow> Inr (trend_anomalies @ ma_anomalies)))))"

section \<open>Enrichment in the collection cycle\<close>

text \<open>
  \<open>Anomaly.to_dict\<close> and \<open>Anomaly.from_dict\<close>. The dictionary is a record of the
  keys that occur; a key read with \<open>get\<close> is an option, \<open>None\<close> when the key is
  absent or holds \<open>None\<close>. The ISO text of a timestamp is kept as the timestamp it
  denotes, since \<open>datetime.fromisoformat\<close> inverts \<open>isoformat\<close>.
\<close>

datatype iso_text = Iso datetime

fun fromisoformat :: "iso_text \<Rightarrow> datetime" where
  "fromisoformat (Iso t) = t"

fun anomaly_type_value :: "AnomalyType \<Rightarrow> string" where
  "anomaly_type_value SPIKE = ''spike''"
| "anomaly_type_value DROP = ''drop''"
| "anomaly_type_value STATISTICAL_OUTLIER = ''statistical_outlier''"
| "anomaly_type_value THRESHOLD_BREACH = ''threshold_breach''"
| "anomaly_type_value PATTERN_ANOMALY = ''pattern_anomaly''"

fun severity_value :: "Severity \<Rightarrow> string" where
  "severity_value LOW = ''low''"
| "severity_value MEDIUM = ''medium''"
| "severity_value HIGH = ''high''"
| "severity_value CRITICAL = ''critical''"

text \<open>Looking an enum member up by its value raises \<open>ValueError\<close> on an unknown value.\<close>

definition anomaly_type_of :: "string \<Rightarrow> error + AnomalyType" where
  "anomaly_type_of s =
     (case find (\<lambda>t. anomaly_type_value t = s)
             [SPIKE, DROP, STATISTICAL_OUTLIER, THRESHOLD_BREACH, PATTERN_ANOMALY] of
        None \<Rightarrow> Inl ValueError | Some t \<Rightarrow> Inr t)"

definition severity_of :: "string \<Rightarrow> error + Severity" where
  "severity_of s =
     (case find (\<lambda>t. severity_value t = s) [LOW, MEDIUM, HIGH, CRITICAL] of
        None \<Rightarrow> Inl ValueError | Some t \<Rightarrow> Inr t)"

record AnomalyDict =
  d_metric_name :: string
  d_anomaly_type :: string
  d_severity :: string
  d_timestamp :: iso_text
  d_value :: real
  d_detector_name :: string
  d_confidence :: real
  d_expected_value :: "real option"
  d_description :: "Description option"
  d_metadata :: meta_dict
  d_labels :: label_set
  d_start_time :: "datetime option"
  d_end_time :: "datetime option"
  d_llm_validated :: bool
  d_llm_status :: "string option"
  d_deviation_percent :: "real option"
  d_llm_validation :: "bool option"
  d_llm_analysis :: "string option"
  d_llm_model :: "string option"

definition deviation :: "Anomaly \<Rightarrow> real option" where
  "deviation a =
     (case expected_value a of
        None \<Rightarrow> None
      | Some e \<Rightarrow> if e = 0 then None else Some (((an_value a - e) / e) * 100))"

definition to_dict :: "Anomaly \<Rightarrow> AnomalyDict" where
  "to_dict a =
     \<lparr> d_metric_name = metric_name a,
       d_anomaly_type = anomaly_type_value (anomaly_type a),
       d_severity = severity_value (severity a),
       d_timestamp = Iso (timestamp a),
       d_value = an_value a,
       d_detector_name = detector_name a,
       d_confidence = confidence a,
       d_expected_value = expected_value a,
       d_description = description a,
       d_metadata = metadata a,
       d_labels = labels a,
       d_start_time = start_time a,
       d_end_time = end_time a,
       d_llm_validated = llm_validated a,
       d_llm_status = llm_status a,
       d_deviation_percent = map_option round2 (deviation a),
       d_llm_validation = None,
       d_llm_analysis = None,
       d_llm_model = None \<rparr>"

text \<open>
  \<open>from_dict\<close> keeps the keys of the constructor it knows; \<open>llm_validated\<close> and
  \<open>llm_status\<close> are not among them and take their defaults.
\<close>

definition from_dict :: "AnomalyDict \<Rightarrow> error + Anomaly" where
  "from_dict d =
     (case anomaly_type_of (d_anomaly_type d) of
        Inl e \<Rightarrow> Inl e
      | Inr atype \<Rightarrow>
          (case severity_of (d_severity d) of
             Inl e \<Rightarrow> Inl e
           | Inr sev \<Rightarrow>
               post_init \<lparr>
                 metric_name = d_metric_name d,
                 anomaly_type = atype,
                 severity = sev,
                 timestamp = fromisoformat (d_timestamp d),
                 an_value = d_value d,
                 detector_name = d_detector_name d,
                 confidence = d_confidence d,
                 expected_value = d_expected_value d,
                 description = d_description d,
                 metadata = d_metadata d,
                 labels = d_labels d,
                 start_time = d_start_time d,
                 end_time = d_end_time d,
                 llm_validated = False,
                 llm_status = None \<rparr>))"

text \<open>
  The LLM client is a collaborator: a call either raises or returns the three
  fields the validator reads. \<open>llm_validation\<close> and \<open>llm_analysis\<close> are read
  with \<open>get\<close>, so an absent key and a key that holds \<open>None\<close> read the same.
  \<open>llm_model\<close> is read with a default, which only an absent key takes: the outer
  option says whether the key is there, the inner one is its value. The validator
  is disabled when there is no client.
\<close>

record LLMResult =
  r_llm_validation :: "bool option"
  r_llm_analysis :: "string option"
  r_llm_model :: "string option option"

type_synonym llm_client = "AnomalyDict \<Rightarrow> error + LLMResult"

record LLMValidator =
  v_enabled :: bool
  v_client :: "llm_client option"

definition llm_validator_init :: "bool \<Rightarrow> llm_client option \<Rightarrow> LLMValidator" where
  "llm_validator_init config_enabled client =
     \<lparr> v_enabled = (if client \<noteq> None then config_enabled else False), v_client = client \<rparr>"

definition ascii_lower :: "string \<Rightarrow> string" where
  "ascii_lower s =
     map (\<lambda>c. if (65::nat) \<le> of_char c \<and> of_char c \<le> (90::nat)
               then char_of (of_char c + (32::nat)) else c) s"

fun is_substring :: "string \<Rightarrow> string \<Rightarrow> bool" where
  "is_substring p [] = (p = [])"
| "is_substring p (c # s) = (take (length p) (c # s) = p \<or> is_substring p s)"

text \<open>
  \<open>_should_keep_anomaly\<close>; an analysis that is absent, \<open>None\<close> or empty is
  falsy.
\<close>

definition should_keep_anomaly :: "AnomalyDict \<Rightarrow> bool" where
  "should_keep_anomaly d =
     (case d_llm_analysis d of
        None \<Rightarrow> True
      | Some text \<Rightarrow>
          if text = [] then True
          else
            (let analysis = ascii_lower text in
             \<not> list_ex (\<lambda>indicator. is_substring indicator analysis)
                  [''non'', ''false positive'', ''probably not'', ''unlikely'']))"

text \<open>One round of the loop of \<open>validate_anomalies\<close>, with its \<open>try\<close>.\<close>

definition validate_one :: "llm_client \<Rightarrow> bool \<Rightarrow> Anomaly \<Rightarrow> AnomalyDict list \<Rightarrow> AnomalyDict list" where
  "validate_one client keep_all anomaly validated_anomalies =
     (let anomaly_dict = to_dict anomaly in
      case client anomaly_dict of
        Inr llm_analysis \<Rightarrow>
          (let enriched = anomaly_dict
                 \<lparr> d_llm_validation := r_llm_validation llm_analysis,
                   d_llm_analysis := r_llm_analysis llm_analysis,
                   d_llm_model := (case r_llm_model llm_analysis of
                                     None \<Rightarrow> Some ''mixtral-8x7b-32768'' | Some m \<Rightarrow> m) \<rparr>
           in if keep_all \<or> should_keep_anomaly enriched
              then validated_anomalies @ [enriched] else validated_anomalies)
      | Inl e \<Rightarrow>
          if keep_all then validated_anomalies @ [anomaly_dict] else validated_anomalies)"

definition validate_anomalies :: "LLMValidator \<Rightarrow> Anomaly list \<Rightarrow> bool \<Rightarrow> AnomalyDict list" where
  "validate_anomalies v anomalies keep_all =
     (if \<not> v_enabled v then []
      else case v_client v of
             None \<Rightarrow> []
           | Some client \<Rightarrow>
               if anomalies = [] then []
               else foldl (\<lambda>validated anomaly. validate_one client keep_all anomaly validated)
                      [] anomalies)"

text \<open>Assignment to a dictionary key: replace the value, or append the key.\<close>

fun dict_set :: "string \<Rightarrow> MetaVal \<Rightarrow> meta_dict \<Rightarrow> meta_dict" where
  "dict_set k v [] = [(k, v)]"
| "dict_set k v ((k', v') # rest) =
     (if k' = k then (k, v) # rest else (k', v') # dict_set k v rest)"

text \<open>The loop of \<open>_enrich_with_llm\<close> that turns the dictionaries back into anomalies.\<close>

fun rebuild :: "AnomalyDict list \<Rightarrow> Anomaly list \<Rightarrow> error + Anomaly list" where
  "rebuild [] result = Inr result"
| "rebuild (item # rest) result =
     (case from_dict item of
        Inl e \<Rightarrow> Inl e
      | Inr anomaly \<Rightarrow>
          (let anomaly' =
             (case d_llm_analysis item of
                None \<Rightarrow> anomaly
              | Some text \<Rightarrow>
                  if text = [] then anomaly
                  else anomaly \<lparr> metadata :=
                         dict_set ''llm_validation''
                           (case d_llm_validation item of None \<Rightarrow> Nothing | Some b \<Rightarrow> Flag b)
                           (dict_set ''llm_analysis'' (Str text) (metadata anomaly)) \<rparr>)
           in rebuild rest (result @ [anomaly'])))"

definition enrich_with_llm :: "LLMValidator \<Rightarrow> Anomaly list \<Rightarrow> error + Anomaly list" where
  "enrich_with_llm v anomalies = rebuild (validate_anomalies v anomalies True) []"

text \<open>
  The last step of \<open>collect_and_analyze\<close>: the batch goes through the enrichment
  when the validator is enabled and the batch is not empty, and an exception of the
  enrichment leaves the batch as it was.
\<close>

definition finish_cycle :: "LLMValidator \<Rightarrow> Anomaly list \<Rightarrow> Anomaly list" where
  "finish_cycle v all_anomalies =
     (if v_enabled v \<and> all_anomalies \<noteq> [] then
        (case enrich_with_llm v all_anomalies of
           Inl e \<Rightarrow> all_anomalies
         | Inr enriched \<Rightarrow> enriched)
      else all_anomalies)"

section \<open>Detection in floating-point arithmetic\<close>

text \<open>
  The detectors compute on Python floats and numpy \<open>float64\<close> arrays. There a
  result is rounded, and it may be infinite or NaN, so a comparison of computed
  values need not come out like the same comparison of real numbers: the percent
  change from 20 to 43 is computed as \<open>114.99999999999999\<close>, and the standard
  deviation that numpy computes for a constant series of \<open>0.3\<close> is not zero. The
  definitions of this section therefore repeat the spike detector, the statistical
  detector and the pattern detector over an arbitrary arithmetic: a type \<open>'f\<close> of
  values together with the operations the code applies to them. What is proved of
  these definitions holds whatever the operations are, so it holds of the
  operations the program runs with. For the spike detector, the statistical
  detector and the moving-average test, the definitions of the sections above are
  the instance for the arithmetic of real numbers, \<open>exact_arith\<close>.

  \<open>fl_const\<close> is the value of a numeric literal of the code. \<open>fl_le\<close>, \<open>fl_lt\<close>
  and \<open>fl_eq\<close> are \<open><=\<close>, \<open><\<close> and \<open>==\<close>; the code's \<open>a >= b\<close> is
  \<open>fl_le b a\<close>, its \<open>a > b\<close> is \<open>fl_lt b a\<close> and its \<open>a != b\<close> is the negation
  of \<open>fl_eq a b\<close>. \<open>fl_round n\<close> is \<open>round(x, n)\<close>. \<open>fl_mean\<close>, \<open>fl_std\<close>,
  \<open>fl_median\<close>, \<open>fl_percentile\<close>, \<open>fl_sign\<close> and \<open>fl_sum\<close> are what numpy
  computes for \<open>np.mean\<close>, \<open>np.std\<close>, \<open>np.median\<close>, \<open>np.percentile\<close>,
  \<open>np.sign\<close> and for the sum of the products inside \<open>np.convolve\<close>.
\<close>

record 'f arith =
  fl_const :: "real \<Rightarrow> 'f"
  fl_add :: "'f \<Rightarrow> 'f \<Rightarrow> 'f"
  fl_sub :: "'f \<Rightarrow> 'f \<Rightarrow> 'f"
  fl_mul :: "'f \<Rightarrow> 'f \<Rightarrow> 'f"
  fl_div :: "'f \<Rightarrow> 'f \<Rightarrow> 'f"
  fl_abs :: "'f \<Rightarrow> 'f"
  fl_le :: "'f \<Rightarrow> 'f \<Rightarrow> bool"
  fl_lt :: "'f \<Rightarrow> 'f \<Rightarrow> bool"
  fl_eq :: "'f \<Rightarrow> 'f \<Rightarrow> bool"
  fl_round :: "nat \<Rightarrow> 'f \<Rightarrow> 'f"
  fl_mean :: "'f list \<Rightarrow> 'f"
  fl_std :: "'f list \<Rightarrow> 'f"
  fl_median :: "'f list \<Rightarrow> 'f"
  fl_percentile :: "'f list \<Rightarrow> real \<Rightarrow> 'f"
  fl_sign :: "'f \<Rightarrow> 'f"
  fl_sum :: "'f list \<Rightarrow> 'f"

text \<open>
  Python's \<open>min(a, b)\<close> returns its first argument unless the second is smaller.
\<close>

definition min_fl :: "'f arith \<Rightarrow> 'f \<Rightarrow> 'f \<Rightarrow> 'f" where
  "min_fl ar a b = (if fl_lt ar b a then b else a)"

text \<open>The chained comparison \<open>0 <= c <= 1\<close> of \<open>Anomaly.__post_init__\<close>.\<close>

definition in_unit_fl :: "'f arith \<Rightarrow> 'f \<Rightarrow> bool" where
  "in_unit_fl ar c = (fl_le ar (fl_const ar 0) c \<and> fl_le ar c (fl_const ar 1))"

definition post_init_fl :: "'f arith \<Rightarrow> 'f Anomaly_of \<Rightarrow> error + 'f Anomaly_of" where
  "post_init_fl ar a = (if \<not> in_unit_fl ar (confidence a) then Inl ValueError else Inr a)"

definition create_anomaly_fl ::
  "'f arith \<Rightarrow> string \<Rightarrow> 'f Metric_of \<Rightarrow> AnomalyType \<Rightarrow> Severity \<Rightarrow> datetime \<Rightarrow> 'f \<Rightarrow> 'f \<Rightarrow>
   'f Description_of \<Rightarrow> 'f option \<Rightarrow> (string \<times> 'f MetaVal_of) list \<Rightarrow> error + 'f Anomaly_of" where
  "create_anomaly_fl ar self_name metric atype sev ts v conf descr expected md =
     post_init_fl ar \<lparr>
       metric_name = m_name metric,
       anomaly_type = atype,
       severity = sev,
       timestamp = ts,
       an_value = v,
       detector_name = self_name,
       confidence = conf,
       expected_value = expected,
       description = Some descr,
       metadata = md,
       labels = [],
       start_time = None,
       end_time = None,
       llm_validated = False,
       llm_status = None \<rparr>"

subsection \<open>SpikeDetector\<close>

definition spike_calculate_severity_fl :: "'f arith \<Rightarrow> 'f \<Rightarrow> Severity" where
  "spike_calculate_severity_fl ar change_percent =
     (if fl_le ar (fl_const ar 200) change_percent then CRITICAL
      else if fl_le ar (fl_const ar 100) change_percent then HIGH
      else if fl_le ar (fl_const ar 75) change_percent then MEDIUM
      else LOW)"

definition spike_percent_change_fl :: "'f arith \<Rightarrow> 'f \<Rightarrow> 'f \<Rightarrow> 'f option" where
  "spike_percent_change_fl ar previous_value current_value =
     (if fl_eq ar previous_value (fl_const ar 0) then
        (if \<not> fl_eq ar current_value (fl_const ar 0) then Some (fl_const ar 100) else None)
      else Some (fl_mul ar (fl_div ar (fl_sub ar current_value previous_value) previous_value)
                   (fl_const ar 100)))"

definition spike_body_fl ::
  "'f arith \<Rightarrow> 'f SpikeConfig_of \<Rightarrow> 'f Metric_of \<Rightarrow> nat \<Rightarrow> error + 'f Anomaly_of option" where
  "spike_body_fl ar cfg metric i =
     (let vals = get_values_array metric;
          previous_value = vals ! (i - 1);
          current_value = vals ! i
      in case spike_percent_change_fl ar previous_value current_value of
           None \<Rightarrow> Inr None
         | Some percent_change \<Rightarrow>
             (let abs_change = fl_abs ar percent_change in
              if fl_le ar (min_change_percent cfg) abs_change then
                (let positive = fl_lt ar (fl_const ar 0) percent_change;
                     atype = (if positive then SPIKE else DROP);
                     descr = (if positive then Spike_text percent_change
                              else Drop_text abs_change);
                     sev = spike_calculate_severity_fl ar abs_change;
                     conf = fl_mul ar (min_fl ar (fl_div ar abs_change (fl_const ar 100))
                                         (fl_const ar 1))
                              (sensitivity cfg)
                 in found (create_anomaly_fl ar ''SpikeDetector'' metric atype sev
                             (mv_timestamp (m_values metric ! i)) current_value conf descr
                             (Some previous_value)
                             [(''percent_change'', Num (fl_round ar 2 percent_change)),
                              (''previous_value'', Num previous_value),
                              (''change_magnitude'', Num abs_change)]))
              else Inr None))"

definition spike_detect_fl ::
  "'f arith \<Rightarrow> 'f SpikeConfig_of \<Rightarrow> 'f Metric_of \<Rightarrow> error + 'f Anomaly_of list" where
  "spike_detect_fl ar cfg metric =
     (if \<not> spike_enabled cfg then Inr []
      else if \<not> validate_metric metric 2 then Inr []
      else emit_loop (spike_body_fl ar cfg metric) [1 ..< length (get_values_array metric)] [])"

subsection \<open>StatisticalDetector\<close>

definition calculate_zscore_severity_fl :: "'f arith \<Rightarrow> 'f \<Rightarrow> Severity" where
  "calculate_zscore_severity_fl ar z_score =
     (if fl_le ar (fl_const ar 5) z_score then CRITICAL
      else if fl_le ar (fl_const ar 4) z_score then HIGH
      else if fl_le ar (fl_const ar (7/2)) z_score then MEDIUM
      else LOW)"

definition calculate_iqr_severity_fl :: "'f arith \<Rightarrow> 'f \<Rightarrow> Severity" where
  "calculate_iqr_severity_fl ar normalized_distance =
     (if fl_le ar (fl_const ar 3) normalized_distance then CRITICAL
      else if fl_le ar (fl_const ar 2) normalized_distance then HIGH
      else if fl_le ar (fl_const ar 1) normalized_distance then MEDIUM
      else LOW)"

definition zscore_body_fl ::
  "'f arith \<Rightarrow> 'f Metric_of \<Rightarrow> 'f list \<Rightarrow> 'f \<Rightarrow> 'f \<Rightarrow> nat \<Rightarrow> error + 'f Anomaly_of option" where
  "zscore_body_fl ar metric vals mean std idx =
     (let v = vals ! idx;
          z_score = fl_abs ar (fl_div ar (fl_sub ar v mean) std);
          sev = calculate_zscore_severity_fl ar z_score;
          conf = min_fl ar (fl_div ar z_score (fl_const ar 5)) (fl_const ar 1)
      in found (create_anomaly_fl ar ''StatisticalDetector'' metric STATISTICAL_OUTLIER sev
                  (mv_timestamp (m_values metric ! idx)) v conf (ZScore_text v z_score mean)
                  (Some mean)
                  [(''z_score'', Num (fl_round ar 2 z_score)),
                   (''mean'', Num (fl_round ar 2 mean)),
                   (''std'', Num (fl_round ar 2 std)),
                   (''detection_method'', Str ''z_score'')]))"

definition detect_zscore_anomalies_fl ::
  "'f arith \<Rightarrow> 'f StatConfig_of \<Rightarrow> 'f Metric_of \<Rightarrow> 'f list \<Rightarrow> error + 'f Anomaly_of list" where
  "detect_zscore_anomalies_fl ar cfg metric vals =
     (let mean = fl_mean ar vals;
          std = fl_std ar vals
      in if fl_eq ar std (fl_const ar 0) then Inr []
         else
           (let z_scores = map (\<lambda>v. fl_abs ar (fl_div ar (fl_sub ar v mean) std)) vals;
                outlier_indices = filter (\<lambda>i. fl_lt ar (z_score_threshold cfg) (z_scores ! i))
                                    [0 ..< length vals]
            in emit_loop (zscore_body_fl ar metric vals mean std) outlier_indices []))"

definition iqr_body_fl ::
  "'f arith \<Rightarrow> 'f Metric_of \<Rightarrow> 'f list \<Rightarrow> 'f \<Rightarrow> 'f \<Rightarrow> 'f \<Rightarrow> 'f \<Rightarrow> 'f \<Rightarrow> nat \<Rightarrow>
   error + 'f Anomaly_of option" where
  "iqr_body_fl ar metric vals q1 q3 iqr lower_bound upper_bound idx =
     (let v = vals ! idx;
          below = fl_lt ar v lower_bound;
          distance = (if below then fl_sub ar lower_bound v else fl_sub ar v upper_bound);
          bound_type = (if below then ''inferieure'' else ''superieure'');
          normalized_distance = (if fl_lt ar (fl_const ar 0) iqr then fl_div ar distance iqr
                                 else fl_const ar 0);
          sev = calculate_iqr_severity_fl ar normalized_distance;
          conf = min_fl ar (fl_div ar normalized_distance (fl_const ar 2)) (fl_const ar 1);
          expected = fl_median ar vals
      in found (create_anomaly_fl ar ''StatisticalDetector'' metric STATISTICAL_OUTLIER sev
                  (mv_timestamp (m_values metric ! idx)) v conf
                  (IQR_text v bound_type lower_bound upper_bound)
                  (Some expected)
                  [(''q1'', Num (fl_round ar 2 q1)),
                   (''q3'', Num (fl_round ar 2 q3)),
                   (''iqr'', Num (fl_round ar 2 iqr)),
                   (''lower_bound'', Num (fl_round ar 2 lower_bound)),
                   (''upper_bound'', Num (fl_round ar 2 upper_bound)),
                   (''detection_method'', Str ''iqr'')]))"

definition detect_iqr_anomalies_fl ::
  "'f arith \<Rightarrow> 'f StatConfig_of \<Rightarrow> 'f Metric_of \<Rightarrow> 'f list \<Rightarrow> error + 'f Anomaly_of list" where
  "detect_iqr_anomalies_fl ar cfg metric vals =
     (let q1 = fl_percentile ar vals 25;
          q3 = fl_percentile ar vals 75;
          iqr = fl_sub ar q3 q1
      in if fl_eq ar iqr (fl_const ar 0) then Inr []
         else
           (let lower_bound = fl_sub ar q1 (fl_mul ar (iqr_multiplier cfg) iqr);
                upper_bound = fl_add ar q3 (fl_mul ar (iqr_multiplier cfg) iqr);
                outlier_indices = filter (\<lambda>i. fl_lt ar (vals ! i) lower_bound \<or>
                                               fl_lt ar upper_bound (vals ! i))
                                    [0 ..< length vals]
            in emit_loop (iqr_body_fl ar metric vals q1 q3 iqr lower_bound upper_bound)
                 outlier_indices []))"

fun max_from_fl :: "'f arith \<Rightarrow> 'f Anomaly_of \<Rightarrow> 'f Anomaly_of list \<Rightarrow> 'f Anomaly_of" where
  "max_from_fl ar best [] = best"
| "max_from_fl ar best (a # rest) =
     (if fl_lt ar (confidence best) (confidence a) then max_from_fl ar a rest
      else max_from_fl ar best rest)"

definition max_by_confidence_fl :: "'f arith \<Rightarrow> 'f Anomaly_of list \<Rightarrow> error + 'f Anomaly_of" where
  "max_by_confidence_fl ar anoms =
     (case anoms of [] \<Rightarrow> Inl ValueError | a # rest \<Rightarrow> Inr (max_from_fl ar a rest))"

fun best_of_groups_fl ::
  "'f arith \<Rightarrow> (datetime \<times> 'f Anomaly_of list) list \<Rightarrow> 'f Anomaly_of list \<Rightarrow>
   error + 'f Anomaly_of list" where
  "best_of_groups_fl ar [] deduplicated = Inr deduplicated"
| "best_of_groups_fl ar ((ts, anoms) # rest) deduplicated =
     (case max_by_confidence_fl ar anoms of
        Inl e \<Rightarrow> Inl e
      | Inr best \<Rightarrow> best_of_groups_fl ar rest (deduplicated @ [best]))"

definition deduplicate_anomalies_fl ::
  "'f arith \<Rightarrow> 'f Anomaly_of list \<Rightarrow> error + 'f Anomaly_of list" where
  "deduplicate_anomalies_fl ar anomalies =
     (if anomalies = [] then Inr [] else best_of_groups_fl ar (by_timestamp anomalies) [])"

definition stat_detect_fl ::
  "'f arith \<Rightarrow> 'f StatConfig_of \<Rightarrow> 'f Metric_of \<Rightarrow> error + 'f Anomaly_of list" where
  "stat_detect_fl ar cfg metric =
     (if \<not> stat_enabled cfg then Inr []
      else if \<not> validate_metric metric 10 then Inr []
      else
        (let vals = get_values_array metric in
         case detect_zscore_anomalies_fl ar cfg metric vals of
           Inl e \<Rightarrow> Inl e
         | Inr zscore_anomalies \<Rightarrow>
             (case detect_iqr_anomalies_fl ar cfg metric vals of
                Inl e \<Rightarrow> Inl e
              | Inr iqr_anomalies \<Rightarrow>
                  deduplicate_anomalies_fl ar (zscore_anomalies @ iqr_anomalies))))"

subsection \<open>PatternDetector\<close>





definition calculate_moving_average_fl :: "'f arith \<Rightarrow> 'f list \<Rightarrow> nat \<Rightarrow> 'f list" where
  "calculate_moving_average_fl ar vals window =
     map (\<lambda>i. if i < window then fl_mean ar (take (i + 1) vals)
               else fl_mean ar (py_slice vals (i - window) i))
       [0 ..< length vals]"

definition calculate_moving_std_fl :: "'f arith \<Rightarrow> 'f list \<Rightarrow> nat \<Rightarrow> 'f list" where
  "calculate_moving_std_fl ar vals window =
     map (\<lambda>i. if i < window then fl_std ar (take (i + 1) vals)
               else fl_std ar (py_slice vals (i - window) i))
       [0 ..< length vals]"

definition ma_body_fl ::
  "'f arith \<Rightarrow> 'f Metric_of \<Rightarrow> 'f list \<Rightarrow> 'f list \<Rightarrow> 'f list \<Rightarrow> nat \<Rightarrow>
   error + 'f Anomaly_of option" where
  "ma_body_fl ar metric vals ma ma_std i =
     (let v = vals ! i;
          expected = ma ! i;
          std = ma_std ! i
      in if fl_eq ar std (fl_const ar 0) then Inr None
         else
           (let deviation = fl_div ar (fl_abs ar (fl_sub ar v expected)) std in
            if fl_lt ar (fl_const ar (5/2)) deviation then
              (let sev = (if fl_lt ar (fl_const ar 4) deviation then HIGH
                          else if fl_lt ar (fl_const ar 3) deviation then MEDIUM
                          else LOW);
                   conf = min_fl ar (fl_div ar deviation (fl_const ar 5)) (fl_const ar 1)
               in found (create_anomaly_fl ar ''PatternDetector'' metric PATTERN_ANOMALY sev
                           (mv_timestamp (m_values metric ! i)) v conf
                           (Deviation_text v expected deviation)
                           (Some expected)
                           [(''deviation_sigma'', Num (fl_round ar 2 deviation)),
                            (''moving_average'', Num (fl_round ar 2 expected)),
                            (''moving_std'', Num (fl_round ar 2 std)),
                            (''detection_method'', Str ''moving_average'')]))
            else Inr None))"

definition detect_moving_average_deviations_fl ::
  "'f arith \<Rightarrow> PatternConfig \<Rightarrow> 'f Metric_of \<Rightarrow> 'f list \<Rightarrow> error + 'f Anomaly_of list" where
  "detect_moving_average_deviations_fl ar cfg metric vals =
     (let ma = calculate_moving_average_fl ar vals (window_size cfg);
          ma_std = calculate_moving_std_fl ar vals (window_size cfg);
          start_idx = window_size cfg
      in emit_loop (ma_body_fl ar metric vals ma ma_std) [start_idx ..< length vals] [])"


subsection \<open>The arithmetic of real numbers\<close>

text \<open>
  The arithmetic without rounding. It agrees with the program's arithmetic on the
  inputs where no operation of the program rounds, overflows or yields NaN.
\<close>

definition exact_arith :: "real arith" where
  "exact_arith =
     \<lparr> fl_const = (\<lambda>x. x),
       fl_add = (\<lambda>a b. a + b),
       fl_sub = (\<lambda>a b. a - b),
       fl_mul = (\<lambda>a b. a * b),
       fl_div = (\<lambda>a b. a / b),
       fl_abs = (\<lambda>a. \<bar>a\<bar>),
       fl_le = (\<lambda>a b. a \<le> b),
       fl_lt = (\<lambda>a b. a < b),
       fl_eq = (\<lambda>a b. a = b),
       fl_round = (\<lambda>n x. of_int (round_half_even (x * 10 ^ n)) / 10 ^ n),
       fl_mean = np_mean,
       fl_std = np_std,
       fl_median = np_median,
       fl_percentile = np_percentile,
       fl_sign = sgn,
       fl_sum = sum_list \<rparr>"

section \<open>Example series and configurations\<close>

text \<open>
  A series as the unit tests build it: one sample per minute, no labels.
\<close>

definition minute_series :: "string \<Rightarrow> real list \<Rightarrow> Metric" where
  "minute_series n xs =
     \<lparr> m_name = n, m_type = GAUGE,
       m_values = map (\<lambda>(i, x). \<lparr> mv_timestamp = 60 * int i, mv_value = x, mv_labels = [] \<rparr>)
                    (enumerate 0 xs),
       m_description = None \<rparr>"

text \<open>
  The series of the spike scenario.
\<close>

definition spike_scenario :: Metric where
  "spike_scenario = minute_series ''test_metric'' [100, 100, 100, 100, 300, 100, 100]"

text \<open>
  A spike configuration whose damping factor is outside its documented range.
\<close>

definition loud_config :: SpikeConfig where
  "loud_config = \<lparr> spike_enabled = True, sensitivity = 2, min_change_percent = 50 \<rparr>"

text \<open>
  The bound set of the precedence example, behind a wildcard entry that also matches.
\<close>

definition cpu_bounds :: threshold_dict where
  "cpu_bounds = [(''warning'', 70), (''critical'', 90)]"

definition cpu_config :: ThresholdConfig where
  "cpu_config = \<lparr> threshold_enabled = True,
                   thresholds = [(''cpu*'', [(''max'', 50)]), (''cpu_usage'', cpu_bounds)] \<rparr>"

text \<open>
  A series where one sample is an outlier for both statistical tests: eight samples
  at 9, eight at 11 and a last one at 18.
\<close>

definition outlier_series :: Metric where
  "outlier_series = minute_series ''latency''
     [9, 9, 9, 9, 9, 9, 9, 9, 11, 11, 11, 11, 11, 11, 11, 11, 18]"


text \<open>
  A short series with a jump at the third sample, and a window of two samples.
\<close>

definition jump_series :: Metric where
  "jump_series = minute_series ''queue_depth'' [0, 2, 5, 2]"

definition window2 :: PatternConfig where
  "window2 = \<lparr> pattern_enabled = True, window_size = 2, seasonality_period = 3600 \<rparr>"

text \<open>
  A two-sample series whose samples carry a label.
\<close>

definition labelled_series :: Metric where
  "labelled_series =
     \<lparr> m_name = ''http_requests'', m_type = GAUGE,
       m_values = [\<lparr> mv_timestamp = 0, mv_value = 100, mv_labels = [(''instance'', ''web-1'')] \<rparr>,
                   \<lparr> mv_timestamp = 60, mv_value = 300, mv_labels = [(''instance'', ''web-1'')] \<rparr>],
       m_description = None \<rparr>"

text \<open>
  A client whose every call raises, and the validator built around it.
\<close>

definition failing_client :: llm_client where
  "failing_client d = Inl LLMError"

definition failing_validator :: LLMValidator where
  "failing_validator = llm_validator_init True (Some failing_client)"

text \<open>
  An anomaly whose confidence was set out of range after its construction.
\<close>

definition tampered_anomaly :: Anomaly where
  "tampered_anomaly =
     \<lparr> metric_name = ''cpu'', anomaly_type = SPIKE, severity = HIGH, timestamp = 0,
       an_value = 300, detector_name = ''SpikeDetector'', confidence = 3/2,
       expected_value = Some 100, description = None, metadata = [], labels = [],
       start_time = None, end_time = None, llm_validated = False, llm_status = None \<rparr>"

text \<open>Two wildcard entries, of which only the second fits a \<open>cpu\<close> name.\<close>

definition two_pattern_config :: ThresholdConfig where
  "two_pattern_config = \<lparr> threshold_enabled = True,
       thresholds = [(''mem*'', [(''max'', 50)]), (''cpu*'', cpu_bounds)] \<rparr>"

section \<open>Properties of the shared loop\<close>

lemma emit_loop_Inr:
  "emit_loop body is acc = Inr out \<Longrightarrow>
     out = acc @ List.map_filter (\<lambda>i. emitted (body i)) is \<and> (\<forall>i \<in> set is. \<exists>r. body i = Inr r)"
proof (induction "is" arbitrary: acc)
  case Nil
  then show ?case by simp
next
  case (Cons i rest)
  show ?case
  proof (cases "body i")
    case (Inl e)
    with Cons.prems show ?thesis by simp
  next
    case (Inr r)
    show ?thesis
    proof (cases r)
      case None
      with Inr Cons.prems have "emit_loop body rest acc = Inr out" by simp
      from Cons.IH[OF this] Inr None show ?thesis
        by (simp add: emitted_def)
    next
      case (Some a)
      with Inr Cons.prems have "emit_loop body rest (acc @ [a]) = Inr out" by simp
      from Cons.IH[OF this] Inr Some show ?thesis
        by (simp add: emitted_def)
    qed
  qed
qed

lemma emit_loop_total:
  "(\<forall>i \<in> set is. \<exists>r. body i = Inr r) \<Longrightarrow>
     emit_loop body is acc = Inr (acc @ List.map_filter (\<lambda>i. emitted (body i)) is)"
proof (induction "is" arbitrary: acc)
  case Nil
  then show ?case by simp
next
  case (Cons i rest)
  then obtain r where r: "body i = Inr r" by auto
  from Cons have IH: "\<And>acc. emit_loop body rest acc =
      Inr (acc @ List.map_filter (\<lambda>i. emitted (body i)) rest)" by simp
  show ?case
    by (cases r) (simp_all add: r IH emitted_def)
qed

lemma post_init_Inr: "post_init a = Inr b \<Longrightarrow> b = a \<and> 0 \<le> confidence a \<and> confidence a \<le> 1"
  by (auto simp: post_init_def split: if_splits)

lemma create_anomaly_confidence:
  "create_anomaly n metric atype sev ts v conf descr ex md = Inr a \<Longrightarrow>
     0 \<le> confidence a \<and> confidence a \<le> 1"
  unfolding create_anomaly_def by (auto dest!: post_init_Inr)

lemma create_anomaly_ok:
  "0 \<le> conf \<Longrightarrow> conf \<le> 1 \<Longrightarrow>
   create_anomaly n metric atype sev ts v conf descr ex md =
     Inr \<lparr> metric_name = m_name metric, anomaly_type = atype, severity = sev, timestamp = ts,
           an_value = v, detector_name = n, confidence = conf, expected_value = ex,
           description = Some descr, metadata = md, labels = [], start_time = None,
           end_time = None, llm_validated = False, llm_status = None \<rparr>"
  by (simp add: create_anomaly_def post_init_def)

lemma emit_loop_iff:
  "(emit_loop body is [] = Inr out) =
     ((\<forall>i \<in> set is. \<exists>r. body i = Inr r) \<and> out = List.map_filter (\<lambda>i. emitted (body i)) is)"
  using emit_loop_Inr[of body "is" "[]" out] emit_loop_total[of "is" body "[]"] by auto

lemma create_anomaly_fl_eq:
  "create_anomaly_fl ar n metric atype sev ts v conf descr ex md =
     (if in_unit_fl ar conf then
        Inr \<lparr> metric_name = m_name metric, anomaly_type = atype, severity = sev, timestamp = ts,
              an_value = v, detector_name = n, confidence = conf, expected_value = ex,
              description = Some descr, metadata = md, labels = [], start_time = None,
              end_time = None, llm_validated = False, llm_status = None \<rparr>
      else Inl ValueError)"
  by (simp add: create_anomaly_fl_def post_init_fl_def)

lemma exact_arith_simps:
  "fl_const exact_arith x = x"
  "fl_add exact_arith a b = a + b"
  "fl_sub exact_arith a b = a - b"
  "fl_mul exact_arith a b = a * b"
  "fl_div exact_arith a b = a / b"
  "fl_abs exact_arith a = \<bar>a\<bar>"
  "fl_le exact_arith a b = (a \<le> b)"
  "fl_lt exact_arith a b = (a < b)"
  "fl_eq exact_arith a b = (a = b)"
  "fl_round exact_arith 2 x = round2 x"
  "fl_round exact_arith 4 x = round4 x"
  "fl_mean exact_arith = np_mean"
  "fl_std exact_arith = np_std"
  "fl_median exact_arith = np_median"
  "fl_percentile exact_arith = np_percentile"
  "min_fl exact_arith a b = min a b"
  "in_unit_fl exact_arith c = (0 \<le> c \<and> c \<le> 1)"
  by (auto simp: exact_arith_def round2_def round4_def min_fl_def in_unit_fl_def)

lemma create_anomaly_fl_exact:
  "create_anomaly_fl exact_arith n metric atype sev ts v conf descr ex md =
     create_anomaly n metric atype sev ts v conf descr ex md"
  by (simp add: create_anomaly_fl_def create_anomaly_def post_init_fl_def post_init_def
        exact_arith_simps)

section \<open>SpikeDetector: properties\<close>

lemma spike_body_cases:
  assumes s0: "0 \<le> sensitivity cfg" and s1: "sensitivity cfg \<le> 1"
  shows "spike_body cfg metric i =
     (case spike_percent_change (get_values_array metric ! (i - 1)) (get_values_array metric ! i) of
        None \<Rightarrow> Inr None
      | Some pc \<Rightarrow>
          if \<bar>pc\<bar> \<ge> min_change_percent cfg then
            Inr (Some \<lparr> metric_name = m_name metric,
                  anomaly_type = (if pc > 0 then SPIKE else DROP),
                  severity = spike_calculate_severity \<bar>pc\<bar>,
                  timestamp = mv_timestamp (m_values metric ! i),
                  an_value = get_values_array metric ! i,
                  detector_name = ''SpikeDetector'',
                  confidence = min (\<bar>pc\<bar> / 100) 1 * sensitivity cfg,
                  expected_value = Some (get_values_array metric ! (i - 1)),
                  description = Some (if pc > 0 then Spike_text pc else Drop_text \<bar>pc\<bar>),
                  metadata = [(''percent_change'', Num (round2 pc)),
                              (''previous_value'', Num (get_values_array metric ! (i - 1))),
                              (''change_magnitude'', Num \<bar>pc\<bar>)],
                  labels = [], start_time = None, end_time = None,
                  llm_validated = False, llm_status = None \<rparr>)
          else Inr None)"
proof -
  have c: "0 \<le> min (\<bar>pc\<bar> / 100) 1 * sensitivity cfg \<and> min (\<bar>pc\<bar> / 100) 1 * sensitivity cfg \<le> 1" for pc :: real
  proof
    show "0 \<le> min (\<bar>pc\<bar> / 100) 1 * sensitivity cfg" using s0 by simp
    have "min (\<bar>pc\<bar> / 100) 1 * sensitivity cfg \<le> 1 * 1"
      by (rule mult_mono) (use s0 s1 in simp_all)
    then show "min (\<bar>pc\<bar> / 100) 1 * sensitivity cfg \<le> 1" by simp
  qed
  show ?thesis
    unfolding spike_body_def Let_def
    by (simp add: create_anomaly_ok c split: option.split)
qed

lemma spike_percent_change_fl_exact:
  "spike_percent_change_fl exact_arith p c = spike_percent_change p c"
  by (simp add: spike_percent_change_fl_def spike_percent_change_def exact_arith_simps)

lemma spike_calculate_severity_fl_exact:
  "spike_calculate_severity_fl exact_arith x = spike_calculate_severity x"
  by (simp add: spike_calculate_severity_fl_def spike_calculate_severity_def exact_arith_simps)

lemma spike_body_fl_exact: "spike_body_fl exact_arith cfg metric i = spike_body cfg metric i"
  unfolding spike_body_fl_def spike_body_def Let_def spike_percent_change_fl_exact
    spike_calculate_severity_fl_exact create_anomaly_fl_exact exact_arith_simps found_def
  by (rule refl)

lemma spike_detect_fl_exact: "spike_detect_fl exact_arith cfg metric = spike_detect cfg metric"
proof -
  have "spike_body_fl exact_arith cfg metric = spike_body cfg metric"
    by (rule ext) (rule spike_body_fl_exact)
  then show ?thesis by (simp add: spike_detect_fl_def spike_detect_def)
qed

lemma spike_body_fl_cases:
  "spike_body_fl ar cfg metric i =
     (let prev = get_values_array metric ! (i - 1);
          cur = get_values_array metric ! i;
          zero = fl_const ar 0;
          hundred = fl_const ar 100;
          pc = (if fl_eq ar prev zero then hundred
                else fl_mul ar (fl_div ar (fl_sub ar cur prev) prev) hundred);
          conf = fl_mul ar (min_fl ar (fl_div ar (fl_abs ar pc) hundred) (fl_const ar 1))
                   (sensitivity cfg)
      in if fl_eq ar prev zero \<and> fl_eq ar cur zero then Inr None
         else if \<not> fl_le ar (min_change_percent cfg) (fl_abs ar pc) then Inr None
         else if \<not> in_unit_fl ar conf then Inl ValueError
         else Inr (Some \<lparr> metric_name = m_name metric,
                  anomaly_type = (if fl_lt ar zero pc then SPIKE else DROP),
                  severity = spike_calculate_severity_fl ar (fl_abs ar pc),
                  timestamp = mv_timestamp (m_values metric ! i),
                  an_value = cur,
                  detector_name = ''SpikeDetector'',
                  confidence = conf,
                  expected_value = Some prev,
                  description = Some (if fl_lt ar zero pc then Spike_text pc
                                      else Drop_text (fl_abs ar pc)),
                  metadata = [(''percent_change'', Num (fl_round ar 2 pc)),
                              (''previous_value'', Num prev),
                              (''change_magnitude'', Num (fl_abs ar pc))],
                  labels = [], start_time = None, end_time = None,
                  llm_validated = False, llm_status = None \<rparr>))"
  by (simp add: spike_body_fl_def spike_percent_change_fl_def create_anomaly_fl_eq found_def
        Let_def)

text \<open>
  C1. The statement is about the values the program computes, in whatever
  arithmetic it runs. With the detector enabled, the detector returns exactly what
  its loop emits over the pairs \<open>(i - 1, i)\<close>, in order, unless the constructor
  rejects a confidence, which ends the call with the exception. A pair of two
  zeros is skipped. For any other pair the percent change is
  \<open>(cur - prev) / prev * 100\<close> as computed, or 100 when the predecessor is zero,
  and the pair is not skipped iff the absolute value of that change reaches
  \<open>min_change_percent\<close>. The anomaly then built is a spike when the change is
  greater than zero and a drop otherwise, and its expected value is the
  predecessor; it is emitted when its confidence,
  \<open>min(|change| / 100, 1.0) * sensitivity\<close>, passes the range check of the
  constructor, and the call raises when it does not.
\<close>

theorem spike_threshold_property:
  assumes "spike_enabled cfg" and "0 < i" and "i < length (m_values metric)"
  shows
    "let prev = mv_value (m_values metric ! (i - 1));
         cur = mv_value (m_values metric ! i);
         zero = fl_const ar 0;
         hundred = fl_const ar 100;
         pc = (if fl_eq ar prev zero then hundred
               else fl_mul ar (fl_div ar (fl_sub ar cur prev) prev) hundred);
         reached = fl_le ar (min_change_percent cfg) (fl_abs ar pc);
         conf = fl_mul ar (min_fl ar (fl_div ar (fl_abs ar pc) hundred) (fl_const ar 1))
                  (sensitivity cfg);
         body = spike_body_fl ar cfg metric;
         pairs = [1 ..< length (m_values metric)]
     in ((spike_detect_fl ar cfg metric = Inr out) =
           ((\<forall>j \<in> set pairs. \<exists>r. body j = Inr r) \<and>
            out = List.map_filter (\<lambda>j. emitted (body j)) pairs)) \<and>
        (fl_eq ar prev zero \<and> fl_eq ar cur zero \<longrightarrow> body i = Inr None) \<and>
        (\<not> (fl_eq ar prev zero \<and> fl_eq ar cur zero) \<longrightarrow>
           ((body i \<noteq> Inr None) = reached) \<and>
           (reached \<and> \<not> in_unit_fl ar conf \<longrightarrow> body i = Inl ValueError) \<and>
           (reached \<and> in_unit_fl ar conf \<longrightarrow>
              (\<exists>a. body i = Inr (Some a) \<and>
                   anomaly_type a = (if fl_lt ar zero pc then SPIKE else DROP) \<and>
                   severity a = spike_calculate_severity_fl ar (fl_abs ar pc) \<and>
                   confidence a = conf \<and>
                   expected_value a = Some prev \<and>
                   an_value a = cur \<and>
                   timestamp a = mv_timestamp (m_values metric ! i))))"
proof -
  have v: "validate_metric metric 2" using assms(2,3) by (simp add: validate_metric_def)
  have A: "(spike_detect_fl ar cfg metric = Inr out) =
           ((\<forall>j \<in> set [1 ..< length (m_values metric)]. \<exists>r. spike_body_fl ar cfg metric j = Inr r) \<and>
            out = List.map_filter (\<lambda>j. emitted (spike_body_fl ar cfg metric j))
                    [1 ..< length (m_values metric)])"
    using assms(1) v
    by (simp add: spike_detect_fl_def get_values_array_def emit_loop_iff del: upt_Suc)
  have im: "i - 1 < length (m_values metric)" using assms(3) by simp
  have n: "get_values_array metric ! i = mv_value (m_values metric ! i)"
    "get_values_array metric ! (i - 1) = mv_value (m_values metric ! (i - 1))"
    using assms(3) im by (simp_all add: get_values_array_def)
  show ?thesis
    unfolding Let_def n[symmetric]
    apply (rule conjI)
     apply (rule A)
    apply (simp add: spike_body_fl_cases Let_def)
    done
qed

lemma spike_scenario_values:
  "m_values spike_scenario =
     [\<lparr> mv_timestamp = 0, mv_value = 100, mv_labels = [] \<rparr>,
      \<lparr> mv_timestamp = 60, mv_value = 100, mv_labels = [] \<rparr>,
      \<lparr> mv_timestamp = 120, mv_value = 100, mv_labels = [] \<rparr>,
      \<lparr> mv_timestamp = 180, mv_value = 100, mv_labels = [] \<rparr>,
      \<lparr> mv_timestamp = 240, mv_value = 300, mv_labels = [] \<rparr>,
      \<lparr> mv_timestamp = 300, mv_value = 100, mv_labels = [] \<rparr>,
      \<lparr> mv_timestamp = 360, mv_value = 100, mv_labels = [] \<rparr>]"
  by (simp add: spike_scenario_def minute_series_def enumerate_eq_zip upt_rec)

theorem spike_threshold_witness:
  "spike_enabled spike_defaults \<and> (0::nat) < 4 \<and> 4 < length (m_values spike_scenario) \<and>
   \<not> fl_eq exact_arith (mv_value (m_values spike_scenario ! 3)) (fl_const exact_arith 0) \<and>
   fl_le exact_arith (min_change_percent spike_defaults) (fl_abs exact_arith 200) \<and>
   in_unit_fl exact_arith (4/5) \<and>
   (\<exists>a. spike_body_fl exact_arith spike_defaults spike_scenario 4 = Inr (Some a) \<and>
        anomaly_type a = SPIKE \<and> severity a = CRITICAL \<and> confidence a = 4/5 \<and>
        expected_value a = Some 100 \<and> an_value a = 300 \<and> timestamp a = 240) \<and>
   spike_body_fl exact_arith spike_defaults spike_scenario 1 = Inr None"
proof -
  have f: "min_change_percent spike_defaults = 50" "sensitivity spike_defaults = 4/5"
    "spike_enabled spike_defaults" by (simp_all add: spike_defaults_def)
  have l: "(0::nat) < 4" "4 < length (m_values spike_scenario)"
    "(0::nat) < 1" "1 < length (m_values spike_scenario)"
    by (simp_all add: spike_scenario_values)
  note t4 = spike_threshold_property[where cfg = spike_defaults and i = 4
      and metric = spike_scenario and ar = exact_arith, OF f(3) l(1,2), unfolded Let_def,
      THEN conjunct2]
  note t1 = spike_threshold_property[where cfg = spike_defaults and i = 1
      and metric = spike_scenario and ar = exact_arith, OF f(3) l(3,4), unfolded Let_def,
      THEN conjunct2]
  have a: "\<exists>a. spike_body_fl exact_arith spike_defaults spike_scenario 4 = Inr (Some a) \<and>
        anomaly_type a = SPIKE \<and> severity a = CRITICAL \<and> confidence a = 4/5 \<and>
        expected_value a = Some 100 \<and> an_value a = 300 \<and> timestamp a = 240"
    using t4
    by (simp add: exact_arith_simps spike_scenario_values f spike_calculate_severity_fl_def)
  have b: "spike_body_fl exact_arith spike_defaults spike_scenario 1 = Inr None"
    using t1 by (simp add: exact_arith_simps spike_scenario_values f)
  show ?thesis
    using a b f l by (simp add: exact_arith_simps spike_scenario_values)
qed

lemma spike_scenario_run:
  "\<exists>a b. spike_detect spike_defaults spike_scenario = Inr [a, b] \<and>
     anomaly_type a = SPIKE \<and> timestamp a = 240 \<and> an_value a = 300 \<and>
     expected_value a = Some 100 \<and> severity a = CRITICAL \<and>
     anomaly_type b = DROP \<and> timestamp b = 300 \<and> an_value b = 100 \<and>
     expected_value b = Some 300 \<and> severity b = LOW"
proof -
  have s: "0 \<le> sensitivity spike_defaults" "sensitivity spike_defaults \<le> 1"
    by (simp_all add: spike_defaults_def)
  have f: "min_change_percent spike_defaults = 50" "sensitivity spike_defaults = 4/5"
    "spike_enabled spike_defaults" by (simp_all add: spike_defaults_def)
  have idx: "[1 ..< 7] = [1, 2, 3, 4, 5, Suc 5]" by (simp add: upt_rec)
  show ?thesis
    by (simp add: spike_detect_def validate_metric_def get_values_array_def 
        spike_scenario_values idx spike_body_cases[OF s] spike_percent_change_def
        spike_calculate_severity_def f)
qed

text \<open>
  C8 as stated fails: on the series \<open>[100,100,100,100,300,100,100]\<close> with
  \<open>min_change_percent = 50\<close> the spike at the 4th-minute sample is a 200 percent
  change, which \<open>_calculate_severity\<close> puts in the critical band, not in high.
\<close>

theorem spike_scenario_counterexample:
  "\<not> (\<exists>out a. spike_detect spike_defaults spike_scenario = Inr out \<and>
         filter (\<lambda>x. anomaly_type x = SPIKE) out = [a] \<and> timestamp a = 240 \<and>
         an_value a = 300 \<and> expected_value a = Some 100 \<and> severity a = HIGH)"
  using spike_scenario_run by auto

text \<open>
  C8, amended. The detector emits exactly one anomaly of kind spike, at the
  4th-minute sample, with value 300, expected value 100 and severity critical. The
  whole output is that spike followed by a drop of severity low at the 5th-minute
  sample.
\<close>

theorem spike_scenario_amended:
  "\<exists>out a. spike_detect spike_defaults spike_scenario = Inr out \<and>
         filter (\<lambda>x. anomaly_type x = SPIKE) out = [a] \<and> timestamp a = 240 \<and>
         an_value a = 300 \<and> expected_value a = Some 100 \<and> severity a = CRITICAL \<and>
         map anomaly_type out = [SPIKE, DROP] \<and> map severity out = [CRITICAL, LOW] \<and>
         map timestamp out = [240, 300]"
  using spike_scenario_run by auto

section \<open>ThresholdDetector: properties\<close>

lemma create_threshold_anomaly_eq:
  "create_threshold_anomaly metric v ts b ty sev =
     Inr \<lparr> metric_name = m_name metric, anomaly_type = THRESHOLD_BREACH, severity = sev,
           timestamp = ts, an_value = v, detector_name = ''ThresholdDetector'', confidence = 1,
           expected_value = Some b,
           description = Some (Threshold_text ty v
              (if ty \<in> set [''min'', ''min_rate''] then ''en dessous'' else ''au-dessus'') b
              \<bar>if b \<noteq> 0 then (if ty \<in> set [''min'', ''min_rate''] then b - v else v - b) / b * 100 else 0\<bar>),
           metadata = [(''threshold_type'', Str ty), (''threshold_value'', Num b),
              (''excess'', Num (round2 (if ty \<in> set [''min'', ''min_rate''] then b - v else v - b))),
              (''excess_percent'', Num (round2 (if b \<noteq> 0 then (if ty \<in> set [''min'', ''min_rate''] then b - v else v - b) / b * 100 else 0)))],
           labels = [], start_time = None, end_time = None,
           llm_validated = False, llm_status = None \<rparr>"
  unfolding create_threshold_anomaly_def Let_def
  by (subst create_anomaly_ok) simp_all

lemma found_threshold:
  "\<exists>a. found (create_threshold_anomaly metric v ts b ty sev) = Inr (Some a) \<and>
       severity a = sev \<and> expected_value a = Some b \<and> confidence a = 1 \<and>
       anomaly_type a = THRESHOLD_BREACH \<and> an_value a = v \<and> timestamp a = ts \<and>
       map_of (metadata a) ''threshold_type'' = Some (Str ty)"
  by (simp add: create_threshold_anomaly_eq found_def)

lemma breached_None: "breached th key test = None \<longleftrightarrow> \<not> (\<exists>b. map_of th key = Some b \<and> test b)"
  by (auto simp: breached_def split: option.splits)

lemma breached_Some: "breached th key test = Some b \<longleftrightarrow> map_of th key = Some b \<and> test b"
  by (auto simp: breached_def split: option.splits)

lemma check_thresholds_order:
  "\<exists>r. check_thresholds metric v ts th = Inr r \<and>
     (let trig = (\<lambda>key test a. \<exists>b. map_of th key = Some b \<and> test b \<and> r = Some a \<and>
                     expected_value a = Some b \<and>
                     map_of (metadata a) ''threshold_type'' = Some (Str key));
          crit = (\<exists>b. map_of th ''critical'' = Some b \<and> v \<ge> b);
          warn = (\<exists>b. map_of th ''warning'' = Some b \<and> v \<ge> b);
          mx = (\<exists>b. map_of th ''max'' = Some b \<and> v > b);
          mn = (\<exists>b. map_of th ''min'' = Some b \<and> v < b);
          mxr = (\<exists>b. map_of th ''max_rate'' = Some b \<and> v > b);
          mnr = (\<exists>b. map_of th ''min_rate'' = Some b \<and> v < b)
      in (crit \<longrightarrow> (\<exists>a. trig ''critical'' (\<lambda>b. v \<ge> b) a \<and> severity a = CRITICAL)) \<and>
         (\<not> crit \<and> warn \<longrightarrow> (\<exists>a. trig ''warning'' (\<lambda>b. v \<ge> b) a \<and> severity a = HIGH)) \<and>
         (\<not> crit \<and> \<not> warn \<and> mx \<longrightarrow> (\<exists>a. trig ''max'' (\<lambda>b. v > b) a \<and> severity a = HIGH)) \<and>
         (\<not> crit \<and> \<not> warn \<and> \<not> mx \<and> mn \<longrightarrow>
            (\<exists>a. trig ''min'' (\<lambda>b. v < b) a \<and> severity a = MEDIUM)) \<and>
         (\<not> crit \<and> \<not> warn \<and> \<not> mx \<and> \<not> mn \<and> mxr \<longrightarrow>
            (\<exists>a. trig ''max_rate'' (\<lambda>b. v > b) a \<and> severity a = HIGH)) \<and>
         (\<not> crit \<and> \<not> warn \<and> \<not> mx \<and> \<not> mn \<and> \<not> mxr \<and> mnr \<longrightarrow>
            (\<exists>a. trig ''min_rate'' (\<lambda>b. v < b) a \<and> severity a = MEDIUM)) \<and>
         (\<not> crit \<and> \<not> warn \<and> \<not> mx \<and> \<not> mn \<and> \<not> mxr \<and> \<not> mnr \<longrightarrow> r = None) \<and>
         (\<forall>a. r = Some a \<longrightarrow> confidence a = 1 \<and> anomaly_type a = THRESHOLD_BREACH \<and>
                an_value a = v \<and> timestamp a = ts))"
proof (cases "breached th ''critical'' (\<lambda>b. v \<ge> b)")
  case (Some b)
  have eq: "check_thresholds metric v ts th =
      found (create_threshold_anomaly metric v ts b ''critical'' CRITICAL)"
    using Some  by (simp add: check_thresholds_def)
  from found_threshold[of metric v ts b "''critical''" CRITICAL] obtain a where
    a: "found (create_threshold_anomaly metric v ts b ''critical'' CRITICAL) = Inr (Some a)"
       "severity a = CRITICAL" "expected_value a = Some b" "confidence a = 1"
       "anomaly_type a = THRESHOLD_BREACH" "an_value a = v" "timestamp a = ts"
       "map_of (metadata a) ''threshold_type'' = Some (Str ''critical'')"
    by blast
  from Some have h: "map_of th ''critical'' = Some b" "v \<ge> b"
    by (simp_all add: breached_Some)
  show ?thesis
    unfolding eq a(1) Let_def using a(2-) h 
    by (intro exI[of _ "Some a"]) auto
next
  case n1: None
  then have nn1: "\<not> (\<exists>b. map_of th ''critical'' = Some b \<and> v \<ge> b)"
    by (simp add: breached_None)
  show ?thesis
  proof (cases "breached th ''warning'' (\<lambda>b. v \<ge> b)")
    case (Some b)
    have eq: "check_thresholds metric v ts th =
        found (create_threshold_anomaly metric v ts b ''warning'' HIGH)"
      using Some n1 by (simp add: check_thresholds_def)
    from found_threshold[of metric v ts b "''warning''" HIGH] obtain a where
      a: "found (create_threshold_anomaly metric v ts b ''warning'' HIGH) = Inr (Some a)"
         "severity a = HIGH" "expected_value a = Some b" "confidence a = 1"
         "anomaly_type a = THRESHOLD_BREACH" "an_value a = v" "timestamp a = ts"
         "map_of (metadata a) ''threshold_type'' = Some (Str ''warning'')"
      by blast
    from Some have h: "map_of th ''warning'' = Some b" "v \<ge> b"
      by (simp_all add: breached_Some)
    show ?thesis
      unfolding eq a(1) Let_def using a(2-) h nn1
      by (intro exI[of _ "Some a"]) auto
  next
    case n2: None
    then have nn2: "\<not> (\<exists>b. map_of th ''warning'' = Some b \<and> v \<ge> b)"
      by (simp add: breached_None)
    show ?thesis
    proof (cases "breached th ''max'' (\<lambda>b. v > b)")
      case (Some b)
      have eq: "check_thresholds metric v ts th =
          found (create_threshold_anomaly metric v ts b ''max'' HIGH)"
        using Some n1 n2 by (simp add: check_thresholds_def)
      from found_threshold[of metric v ts b "''max''" HIGH] obtain a where
        a: "found (create_threshold_anomaly metric v ts b ''max'' HIGH) = Inr (Some a)"
           "severity a = HIGH" "expected_value a = Some b" "confidence a = 1"
           "anomaly_type a = THRESHOLD_BREACH" "an_value a = v" "timestamp a = ts"
           "map_of (metadata a) ''threshold_type'' = Some (Str ''max'')"
        by blast
      from Some have h: "map_of th ''max'' = Some b" "v > b"
        by (simp_all add: breached_Some)
      show ?thesis
        unfolding eq a(1) Let_def using a(2-) h nn1 nn2
        by (intro exI[of _ "Some a"]) auto
    next
      case n3: None
      then have nn3: "\<not> (\<exists>b. map_of th ''max'' = Some b \<and> v > b)"
        by (simp add: breached_None)
      show ?thesis
      proof (cases "breached th ''min'' (\<lambda>b. v < b)")
        case (Some b)
        have eq: "check_thresholds metric v ts th =
            found (create_threshold_anomaly metric v ts b ''min'' MEDIUM)"
          using Some n1 n2 n3 by (simp add: check_thresholds_def)
        from found_threshold[of metric v ts b "''min''" MEDIUM] obtain a where
          a: "found (create_threshold_anomaly metric v ts b ''min'' MEDIUM) = Inr (Some a)"
             "severity a = MEDIUM" "expected_value a = Some b" "confidence a = 1"
             "anomaly_type a = THRESHOLD_BREACH" "an_value a = v" "timestamp a = ts"
             "map_of (metadata a) ''threshold_type'' = Some (Str ''min'')"
          by blast
        from Some have h: "map_of th ''min'' = Some b" "v < b"
          by (simp_all add: breached_Some)
        show ?thesis
          unfolding eq a(1) Let_def using a(2-) h nn1 nn2 nn3
          by (intro exI[of _ "Some a"]) auto
      next
        case n4: None
        then have nn4: "\<not> (\<exists>b. map_of th ''min'' = Some b \<and> v < b)"
          by (simp add: breached_None)
        show ?thesis
        proof (cases "breached th ''max_rate'' (\<lambda>b. v > b)")
          case (Some b)
          have eq: "check_thresholds metric v ts th =
              found (create_threshold_anomaly metric v ts b ''max_rate'' HIGH)"
            using Some n1 n2 n3 n4 by (simp add: check_thresholds_def)
          from found_threshold[of metric v ts b "''max_rate''" HIGH] obtain a where
            a: "found (create_threshold_anomaly metric v ts b ''max_rate'' HIGH) = Inr (Some a)"
               "severity a = HIGH" "expected_value a = Some b" "confidence a = 1"
               "anomaly_type a = THRESHOLD_BREACH" "an_value a = v" "timestamp a = ts"
               "map_of (metadata a) ''threshold_type'' = Some (Str ''max_rate'')"
            by blast
          from Some have h: "map_of th ''max_rate'' = Some b" "v > b"
            by (simp_all add: breached_Some)
          show ?thesis
            unfolding eq a(1) Let_def using a(2-) h nn1 nn2 nn3 nn4
            by (intro exI[of _ "Some a"]) auto
        next
          case n5: None
          then have nn5: "\<not> (\<exists>b. map_of th ''max_rate'' = Some b \<and> v > b)"
            by (simp add: breached_None)
          show ?thesis
          proof (cases "breached th ''min_rate'' (\<lambda>b. v < b)")
            case (Some b)
            have eq: "check_thresholds metric v ts th =
                found (create_threshold_anomaly metric v ts b ''min_rate'' MEDIUM)"
              using Some n1 n2 n3 n4 n5 by (simp add: check_thresholds_def)
            from found_threshold[of metric v ts b "''min_rate''" MEDIUM] obtain a where
              a: "found (create_threshold_anomaly metric v ts b ''min_rate'' MEDIUM) = Inr (Some a)"
                 "severity a = MEDIUM" "expected_value a = Some b" "confidence a = 1"
                 "anomaly_type a = THRESHOLD_BREACH" "an_value a = v" "timestamp a = ts"
                 "map_of (metadata a) ''threshold_type'' = Some (Str ''min_rate'')"
              by blast
            from Some have h: "map_of th ''min_rate'' = Some b" "v < b"
              by (simp_all add: breached_Some)
            show ?thesis
              unfolding eq a(1) Let_def using a(2-) h nn1 nn2 nn3 nn4 nn5
              by (intro exI[of _ "Some a"]) auto
          next
            case n6: None
            then have nn6: "\<not> (\<exists>b. map_of th ''min_rate'' = Some b \<and> v < b)"
              by (simp add: breached_None)
            show ?thesis
            proof -
              have eq: "check_thresholds metric v ts th = Inr None"
                using n1 n2 n3 n4 n5 n6 by (simp add: check_thresholds_def)
              show ?thesis unfolding eq Let_def using nn1 nn2 nn3 nn4 nn5 nn6
                by (intro exI[of _ None]) auto
            qed
          qed
        qed
      qed
    qed
  qed
qed

text \<open>
  C3 as stated fails for the bounds \<open>max\<close> and \<open>max_rate\<close>: they are compared
  with \<open>>\<close>, so a value equal to the bound emits nothing.
\<close>

theorem threshold_max_counterexample:
  "(100::real) \<ge> 100 \<and> map_of [(''max'', 100::real)] ''max'' = Some 100 \<and>
   check_thresholds (minute_series ''memory_usage'' [100]) 100 0 [(''max'', 100)] = Inr None"
  by (simp add: check_thresholds_def breached_def)

text \<open>
  C3, amended. With a resolved, non-empty bound set an enabled detector returns
  what \<open>_check_thresholds\<close> emits for its samples, in order, and one call of
  \<open>_check_thresholds\<close> returns at most one anomaly and never raises. The bounds are tried in the order critical, warning, max, min,
  max_rate, min_rate and the first one that triggers decides the anomaly (its
  severity, its expected value and the recorded threshold type). The bounds
  critical and warning trigger when \<open>value >= bound\<close>, max and max_rate when
  \<open>value > bound\<close>, min and min_rate when \<open>value < bound\<close>.
\<close>

theorem threshold_first_match:
  "(threshold_enabled cfg \<and> get_metric_thresholds cfg (m_name metric) = Inr (Some bounds) \<and>
    bounds \<noteq> [] \<longrightarrow>
      threshold_detect cfg metric =
        Inr (List.map_filter
               (\<lambda>mv. emitted (check_thresholds metric (mv_value mv) (mv_timestamp mv) bounds))
               (m_values metric))) \<and>
   (\<exists>r. check_thresholds metric v ts bounds = Inr r \<and>
     (let trig = (\<lambda>key test a. \<exists>b. map_of bounds key = Some b \<and> test b \<and> r = Some a \<and>
                     expected_value a = Some b \<and>
                     map_of (metadata a) ''threshold_type'' = Some (Str key));
          crit = (\<exists>b. map_of bounds ''critical'' = Some b \<and> v \<ge> b);
          warn = (\<exists>b. map_of bounds ''warning'' = Some b \<and> v \<ge> b);
          mx = (\<exists>b. map_of bounds ''max'' = Some b \<and> v > b);
          mn = (\<exists>b. map_of bounds ''min'' = Some b \<and> v < b);
          mxr = (\<exists>b. map_of bounds ''max_rate'' = Some b \<and> v > b);
          mnr = (\<exists>b. map_of bounds ''min_rate'' = Some b \<and> v < b)
      in (crit \<longrightarrow> (\<exists>a. trig ''critical'' (\<lambda>b. v \<ge> b) a \<and> severity a = CRITICAL)) \<and>
         (\<not> crit \<and> warn \<longrightarrow> (\<exists>a. trig ''warning'' (\<lambda>b. v \<ge> b) a \<and> severity a = HIGH)) \<and>
         (\<not> crit \<and> \<not> warn \<and> mx \<longrightarrow> (\<exists>a. trig ''max'' (\<lambda>b. v > b) a \<and> severity a = HIGH)) \<and>
         (\<not> crit \<and> \<not> warn \<and> \<not> mx \<and> mn \<longrightarrow>
            (\<exists>a. trig ''min'' (\<lambda>b. v < b) a \<and> severity a = MEDIUM)) \<and>
         (\<not> crit \<and> \<not> warn \<and> \<not> mx \<and> \<not> mn \<and> mxr \<longrightarrow>
            (\<exists>a. trig ''max_rate'' (\<lambda>b. v > b) a \<and> severity a = HIGH)) \<and>
         (\<not> crit \<and> \<not> warn \<and> \<not> mx \<and> \<not> mn \<and> \<not> mxr \<and> mnr \<longrightarrow>
            (\<exists>a. trig ''min_rate'' (\<lambda>b. v < b) a \<and> severity a = MEDIUM)) \<and>
         (\<not> crit \<and> \<not> warn \<and> \<not> mx \<and> \<not> mn \<and> \<not> mxr \<and> \<not> mnr \<longrightarrow> r = None) \<and>
         (\<forall>a. r = Some a \<longrightarrow> confidence a = 1 \<and> anomaly_type a = THRESHOLD_BREACH \<and>
                an_value a = v \<and> timestamp a = ts)))"
proof (rule conjI)
  have all: "\<forall>mv \<in> set (m_values metric).
      \<exists>r. check_thresholds metric (mv_value mv) (mv_timestamp mv) bounds = Inr r"
    using check_thresholds_order by blast
  show "threshold_enabled cfg \<and> get_metric_thresholds cfg (m_name metric) = Inr (Some bounds) \<and>
    bounds \<noteq> [] \<longrightarrow>
      threshold_detect cfg metric =
        Inr (List.map_filter
               (\<lambda>mv. emitted (check_thresholds metric (mv_value mv) (mv_timestamp mv) bounds))
               (m_values metric))"
    using emit_loop_total[OF all, of "[]"]
    by (cases "m_values metric") (auto simp: threshold_detect_def validate_metric_def)
next
  show "\<exists>r. check_thresholds metric v ts bounds = Inr r \<and>
     (let trig = (\<lambda>key test a. \<exists>b. map_of bounds key = Some b \<and> test b \<and> r = Some a \<and>
                     expected_value a = Some b \<and>
                     map_of (metadata a) ''threshold_type'' = Some (Str key));
          crit = (\<exists>b. map_of bounds ''critical'' = Some b \<and> v \<ge> b);
          warn = (\<exists>b. map_of bounds ''warning'' = Some b \<and> v \<ge> b);
          mx = (\<exists>b. map_of bounds ''max'' = Some b \<and> v > b);
          mn = (\<exists>b. map_of bounds ''min'' = Some b \<and> v < b);
          mxr = (\<exists>b. map_of bounds ''max_rate'' = Some b \<and> v > b);
          mnr = (\<exists>b. map_of bounds ''min_rate'' = Some b \<and> v < b)
      in (crit \<longrightarrow> (\<exists>a. trig ''critical'' (\<lambda>b. v \<ge> b) a \<and> severity a = CRITICAL)) \<and>
         (\<not> crit \<and> warn \<longrightarrow> (\<exists>a. trig ''warning'' (\<lambda>b. v \<ge> b) a \<and> severity a = HIGH)) \<and>
         (\<not> crit \<and> \<not> warn \<and> mx \<longrightarrow> (\<exists>a. trig ''max'' (\<lambda>b. v > b) a \<and> severity a = HIGH)) \<and>
         (\<not> crit \<and> \<not> warn \<and> \<not> mx \<and> mn \<longrightarrow>
            (\<exists>a. trig ''min'' (\<lambda>b. v < b) a \<and> severity a = MEDIUM)) \<and>
         (\<not> crit \<and> \<not> warn \<and> \<not> mx \<and> \<not> mn \<and> mxr \<longrightarrow>
            (\<exists>a. trig ''max_rate'' (\<lambda>b. v > b) a \<and> severity a = HIGH)) \<and>
         (\<not> crit \<and> \<not> warn \<and> \<not> mx \<and> \<not> mn \<and> \<not> mxr \<and> mnr \<longrightarrow>
            (\<exists>a. trig ''min_rate'' (\<lambda>b. v < b) a \<and> severity a = MEDIUM)) \<and>
         (\<not> crit \<and> \<not> warn \<and> \<not> mx \<and> \<not> mn \<and> \<not> mxr \<and> \<not> mnr \<longrightarrow> r = None) \<and>
         (\<forall>a. r = Some a \<longrightarrow> confidence a = 1 \<and> anomaly_type a = THRESHOLD_BREACH \<and>
                an_value a = v \<and> timestamp a = ts))"
    by (rule check_thresholds_order)
qed

subsection \<open>Pattern matching\<close>

lemma ex_le_Suc: "(\<exists>k \<le> Suc n. P k) \<longleftrightarrow> P 0 \<or> (\<exists>k \<le> n. P (Suc k))"
proof
  assume "\<exists>k \<le> Suc n. P k"
  then obtain k where k: "k \<le> Suc n" "P k" by blast
  show "P 0 \<or> (\<exists>k \<le> n. P (Suc k))"
  proof (cases k)
    case 0
    with k show ?thesis by simp
  next
    case (Suc j)
    with k show ?thesis by auto
  qed
next
  assume "P 0 \<or> (\<exists>k \<le> n. P (Suc k))"
  then show "\<exists>k \<le> Suc n. P k" by auto
qed

lemma matches_whole_Many_Nil: "matches_whole (Many a # items) [] = matches_whole items []"
  by simp

lemma matches_whole_Many_Cons:
  "matches_whole (Many a # items) (x # s) \<longleftrightarrow>
     matches_whole items (x # s) \<or> (atom_ok a x \<and> matches_whole (Many a # items) s)"
  by (auto simp add: ex_le_Suc)

lemma match_items_prefix:
  "match_items items s \<longleftrightarrow> (\<exists>k \<le> length s. matches_whole items (take k s))"
proof (induction items s rule: match_items.induct)
  case (1 s)
  show ?case by (auto intro: exI[of _ 0])
next
  case (2 a items)
  show ?case by simp
next
  case (3 a items x s)
  show ?case by (auto simp add: ex_le_Suc 3)
next
  case (4 a items)
  show ?case using 4 by simp
next
  case (5 a items x s)
  have "(\<exists>k \<le> length (x # s). matches_whole (Many a # items) (take k (x # s))) \<longleftrightarrow>
        matches_whole items [] \<or>
        (\<exists>k \<le> length s. matches_whole items (x # take k s)) \<or>
        (atom_ok a x \<and> (\<exists>k \<le> length s. matches_whole (Many a # items) (take k s)))"
    unfolding length_Cons ex_le_Suc[of "length s"] take_Suc_Cons take_0
      matches_whole_Many_Nil matches_whole_Many_Cons by blast
  also have "\<dots> \<longleftrightarrow> (\<exists>k \<le> length (x # s). matches_whole items (take k (x # s))) \<or>
        (atom_ok a x \<and> (\<exists>k \<le> length s. matches_whole (Many a # items) (take k s)))"
    unfolding length_Cons ex_le_Suc[of "length s"] take_Suc_Cons take_0 by blast
  finally show ?case using 5 by auto
qed

lemma replace_star_Cons:
  "replace_star (c # p) = (if c = CHR ''*'' then ''.*'' else [c]) @ replace_star p"
  by (simp add: replace_star_def)

lemma replace_star_Nil: "replace_star [] = []"
  by (simp add: replace_star_def)

lemma replace_star_no_leading_star: "replace_star p \<noteq> CHR ''*'' # r"
  by (cases p) (auto simp: replace_star_Cons replace_star_Nil)

lemma re_literal_not_star: "re_literal c \<Longrightarrow> c \<noteq> CHR ''*''"
  by (auto simp: re_literal_def re_special_def)

lemma re_parse_literal_Cons:
  assumes "re_literal c"
  shows "re_parse (replace_star (c # p)) =
           map_option (Cons (One (Lit c))) (re_parse (replace_star p))"
proof (cases "replace_star p")
  case Nil
  with assms show ?thesis
    by (simp add: replace_star_Cons re_literal_not_star re_literal_def re_atom_of_def)
next
  case (Cons d rest)
  with replace_star_no_leading_star[of p rest] have "d \<noteq> CHR ''*''" by auto
  with assms Cons show ?thesis
    by (simp add: replace_star_Cons re_literal_not_star re_literal_def re_atom_of_def)
qed

lemma re_parse_literal_prefix:
  "\<forall>c \<in> set lit. re_literal c \<Longrightarrow>
     re_parse (replace_star (lit @ rest)) =
       map_option ((@) (map (\<lambda>c. One (Lit c)) lit)) (re_parse (replace_star rest))"
proof (induction lit)
  case Nil
  show ?case by (simp add: option.map_ident)
next
  case (Cons c lit)
  then show ?case
    by (simp add: re_parse_literal_Cons option.map_comp comp_def del: re_parse.simps)
qed

lemma match_items_literals:
  "match_items (map (\<lambda>c. One (Lit c)) lit @ items) s \<longleftrightarrow>
     take (length lit) s = lit \<and> match_items items (drop (length lit) s)"
proof (induction lit arbitrary: s)
  case Nil
  show ?case by simp
next
  case (Cons c lit)
  show ?case by (cases s) (auto simp: Cons)
qed

lemma match_items_Many_last: "match_items [Many a] s"
  by (induction s) auto

lemma cpu_star_parse:
  "re_parse (replace_star ''cpu*'') = Some [One (Lit CHR ''c''), One (Lit CHR ''p''), One (Lit CHR ''u''), Many Dot]"
  by (simp add: replace_star_def re_special_def re_atom_of_def)

lemma pattern_loop_first:
  assumes "\<forall>e \<in> set entries. CHR ''*'' \<in> set (fst e) \<longrightarrow> re_parse (replace_star (fst e)) \<noteq> None"
  shows "pattern_loop entries mname =
           Inr (map_option snd
                  (find (\<lambda>e. CHR ''*'' \<in> set (fst e) \<and>
                             (\<exists>items. re_parse (replace_star (fst e)) = Some items \<and>
                                      match_items items mname))
                        entries))"
  using assms
proof (induction entries mname rule: pattern_loop.induct)
  case (1 mname)
  show ?case by simp
next
  case (2 pattern th rest mname)
  show ?case
  proof (cases "CHR ''*'' \<in> set pattern")
    case False
    with 2 show ?thesis by simp
  next
    case True
    with "2.prems" obtain items where it: "re_parse (replace_star pattern) = Some items" by auto
    show ?thesis
    proof (cases "match_items items mname")
      case m: True
      with True it show ?thesis by (simp add: re_match_def)
    next
      case m: False
      have r: "re_match (replace_star pattern) mname = Inr False"
        using it m by (simp add: re_match_def)
      from "2.IH"(1)[OF True r] "2.prems"
      have "pattern_loop rest mname =
           Inr (map_option snd
                  (find (\<lambda>e. CHR ''*'' \<in> set (fst e) \<and>
                             (\<exists>items. re_parse (replace_star (fst e)) = Some items \<and>
                                      match_items items mname))
                        rest))" by simp
      with True it m r show ?thesis by simp
    qed
  qed
qed

text \<open>
  C10. An entry under the exact metric name wins over every pattern. Without
  such an entry, and when every configured pattern with a \<open>*\<close> is built from
  ordinary characters, \<open>.\<close> and \<open>*\<close>, the bounds returned are those of the
  first entry, in configuration order, whose pattern has a \<open>*\<close> and whose
  expression (each \<open>*\<close> replaced with \<open>.*\<close>) matches some prefix of the name as
  a whole; entries without a \<open>*\<close> are passed over, and no such entry means no
  bounds. The expression of \<open>cpu*\<close> matches a prefix of exactly the names that
  begin with \<open>cpu\<close>, and the expression of a pattern that begins with literal
  text matches no prefix of a name that does not begin with that text.
\<close>

theorem threshold_pattern_resolution:
  "(map_of (thresholds cfg) mname = Some th \<longrightarrow>
      get_metric_thresholds cfg mname = Inr (Some th)) \<and>
   (map_of (thresholds cfg) mname = None \<and>
    (\<forall>e \<in> set (thresholds cfg).
        CHR ''*'' \<in> set (fst e) \<longrightarrow> re_parse (replace_star (fst e)) \<noteq> None) \<longrightarrow>
      get_metric_thresholds cfg mname =
        Inr (map_option snd
               (find (\<lambda>e. CHR ''*'' \<in> set (fst e) \<and>
                          (\<exists>items. re_parse (replace_star (fst e)) = Some items \<and>
                             (\<exists>k \<le> length mname. matches_whole items (take k mname))))
                     (thresholds cfg)))) \<and>
   (\<exists>items. re_parse (replace_star ''cpu*'') = Some items \<and>
      (\<exists>k \<le> length mname. matches_whole items (take k mname)) = (take 3 mname = ''cpu'')) \<and>
   (lit \<noteq> [] \<and> (\<forall>c \<in> set lit. re_literal c) \<and>
    re_parse (replace_star (lit @ rest)) = Some items' \<and>
    take (length lit) mname \<noteq> lit \<longrightarrow>
      \<not> (\<exists>k \<le> length mname. matches_whole items' (take k mname)))"
  (is "?A \<and> ?B \<and> ?C \<and> ?D")
proof -
  have A: ?A by (simp add: get_metric_thresholds_def)
  have B: ?B
  proof (intro impI, elim conjE)
    assume n: "map_of (thresholds cfg) mname = None"
      and p: "\<forall>e \<in> set (thresholds cfg).
        CHR ''*'' \<in> set (fst e) \<longrightarrow> re_parse (replace_star (fst e)) \<noteq> None"
    show "get_metric_thresholds cfg mname =
        Inr (map_option snd
               (find (\<lambda>e. CHR ''*'' \<in> set (fst e) \<and>
                          (\<exists>items. re_parse (replace_star (fst e)) = Some items \<and>
                             (\<exists>k \<le> length mname. matches_whole items (take k mname))))
                     (thresholds cfg)))"
      using pattern_loop_first[OF p, of mname] n
      by (simp add: get_metric_thresholds_def match_items_prefix)
  qed
  have C: ?C
  proof -
    have "match_items [One (Lit CHR ''c''), One (Lit CHR ''p''), One (Lit CHR ''u''), Many Dot] mname
           = (take 3 mname = ''cpu'')"
      using match_items_literals[of "''cpu''" "[Many Dot]" mname]
      by (simp add: match_items_Many_last numeral_3_eq_3)
    then show ?thesis
      by (simp add: cpu_star_parse match_items_prefix)
  qed
  have D: ?D
  proof (intro impI, elim conjE)
    assume lit: "\<forall>c \<in> set lit. re_literal c"
      and pr: "re_parse (replace_star (lit @ rest)) = Some items'"
      and np: "take (length lit) mname \<noteq> lit"
    from pr re_parse_literal_prefix[OF lit, of rest] obtain tl where
      "items' = map (\<lambda>c. One (Lit c)) lit @ tl" by auto
    with np have "\<not> match_items items' mname" by (simp add: match_items_literals)
    then show "\<not> (\<exists>k \<le> length mname. matches_whole items' (take k mname))"
      by (simp add: match_items_prefix)
  qed
  from A B C D show ?thesis by blast
qed

subsection \<open>Concrete runs of bound resolution and checks\<close>

lemma cpu_config_exact:
  "map_of (thresholds cpu_config) ''cpu_usage'' = Some cpu_bounds"
  by (simp add: cpu_config_def)

lemma cpu_config_resolves: "get_metric_thresholds cpu_config ''cpu_usage'' = Inr (Some cpu_bounds)"
  by (simp add: get_metric_thresholds_def cpu_config_exact)

theorem threshold_first_match_witness:
  "threshold_enabled cpu_config \<and>
   get_metric_thresholds cpu_config (m_name (minute_series ''cpu_usage'' [95, 60])) = Inr (Some cpu_bounds) \<and>
   cpu_bounds \<noteq> [] \<and>
   map_of cpu_bounds ''critical'' = Some 90 \<and> (95::real) \<ge> 90 \<and>
   map_of cpu_bounds ''warning'' = Some 70 \<and> (95::real) \<ge> 70 \<and>
   (\<exists>a. check_thresholds (minute_series ''cpu_usage'' [95, 60]) 95 0 cpu_bounds = Inr (Some a) \<and>
        severity a = CRITICAL \<and> expected_value a = Some 90) \<and>
   (\<exists>a. threshold_detect cpu_config (minute_series ''cpu_usage'' [95, 60]) = Inr [a] \<and>
        severity a = CRITICAL)"
proof -
  let ?m = "minute_series ''cpu_usage'' [95, 60]"
  have n: "m_name ?m = ''cpu_usage''" by (simp add: minute_series_def)
  have v: "m_values ?m = [\<lparr> mv_timestamp = 0, mv_value = 95, mv_labels = [] \<rparr>,
                          \<lparr> mv_timestamp = 60, mv_value = 60, mv_labels = [] \<rparr>]"
    by (simp add: minute_series_def enumerate_eq_zip upt_rec)
  have b: "map_of cpu_bounds ''critical'' = Some 90" "map_of cpu_bounds ''warning'' = Some 70"
    "cpu_bounds \<noteq> []" "map_of cpu_bounds ''max'' = None" "map_of cpu_bounds ''min'' = None"
    "map_of cpu_bounds ''max_rate'' = None" "map_of cpu_bounds ''min_rate'' = None"
    by (simp_all add: cpu_bounds_def)
  have e: "threshold_enabled cpu_config" by (simp add: cpu_config_def)
  note t1 = threshold_first_match[of cpu_config ?m cpu_bounds 95 0]
  note t2 = threshold_first_match[of cpu_config ?m cpu_bounds 60 60]
  from t1 b obtain a where a: "check_thresholds ?m 95 0 cpu_bounds = Inr (Some a)"
      "severity a = CRITICAL" "expected_value a = Some 90"
    unfolding Let_def by auto
  from t2 b have n2: "check_thresholds ?m 60 60 cpu_bounds = Inr None"
    unfolding Let_def by auto
  from t1 e b have "threshold_detect cpu_config ?m = Inr [a]"
    by (simp add: n cpu_config_resolves v a n2 emitted_def)
  with a e b show ?thesis by (simp add: n cpu_config_resolves)
qed

lemma mem_star_parse:
  "re_parse (replace_star ''mem*'') = Some [One (Lit CHR ''m''), One (Lit CHR ''e''), One (Lit CHR ''m''), Many Dot]"
  by (simp add: replace_star_def re_special_def re_atom_of_def)

theorem threshold_pattern_resolution_witness:
  "map_of (thresholds cpu_config) ''cpu_usage'' = Some cpu_bounds \<and>
   get_metric_thresholds cpu_config ''cpu_usage'' = Inr (Some cpu_bounds) \<and>
   map_of (thresholds two_pattern_config) ''cpu_idle'' = None \<and>
   list_all (\<lambda>e. re_parse (replace_star (fst e)) \<noteq> None) (thresholds two_pattern_config) \<and>
   get_metric_thresholds two_pattern_config ''cpu_idle'' = Inr (Some cpu_bounds) \<and>
   get_metric_thresholds two_pattern_config ''node_cpu'' = Inr None \<and>
   ''cpu'' \<noteq> [] \<and> list_all re_literal ''cpu'' \<and>
   re_parse (replace_star (''cpu'' @ ''*'')) =
     Some [One (Lit CHR ''c''), One (Lit CHR ''p''), One (Lit CHR ''u''), Many Dot] \<and>
   take (length ''cpu'') ''node_cpu'' \<noteq> ''cpu'' \<and>
   \<not> (\<exists>k \<le> length ''node_cpu''.
         matches_whole [One (Lit CHR ''c''), One (Lit CHR ''p''), One (Lit CHR ''u''), Many Dot]
           (take k ''node_cpu''))"
proof -
  let ?items = "[One (Lit CHR ''c''), One (Lit CHR ''p''), One (Lit CHR ''u''), Many Dot]"
  have th: "thresholds two_pattern_config = [(''mem*'', [(''max'', 50)]), (''cpu*'', cpu_bounds)]"
    by (simp add: two_pattern_config_def)
  have p: "re_parse (replace_star (''cpu'' @ ''*'')) = Some ?items"
    using cpu_star_parse by simp
  have l: "list_all re_literal ''cpu''" by (simp add: re_literal_def re_special_def)
  have pa: "list_all (\<lambda>e. re_parse (replace_star (fst e)) \<noteq> None) (thresholds two_pattern_config)"
    by (simp add: th cpu_star_parse mem_star_parse)
  then have pa': "\<forall>e \<in> set (thresholds two_pattern_config).
        CHR ''*'' \<in> set (fst e) \<longrightarrow> re_parse (replace_star (fst e)) \<noteq> None"
    by (simp add: list_all_iff)
  have n1: "map_of (thresholds two_pattern_config) ''cpu_idle'' = None"
    and n2: "map_of (thresholds two_pattern_config) ''node_cpu'' = None"
    by (simp_all add: th)
  have c1: "get_metric_thresholds cpu_config ''cpu_usage'' = Inr (Some cpu_bounds)"
    using threshold_pattern_resolution[where cfg = cpu_config and mname = "''cpu_usage''"
        and th = cpu_bounds, THEN conjunct1] cpu_config_exact by simp
  have c2: "get_metric_thresholds two_pattern_config ''cpu_idle'' = Inr (Some cpu_bounds)"
  proof -
    have "get_metric_thresholds two_pattern_config ''cpu_idle'' =
            Inr (map_option snd
                   (find (\<lambda>e. CHR ''*'' \<in> set (fst e) \<and>
                              (\<exists>items. re_parse (replace_star (fst e)) = Some items \<and>
                                 match_items items ''cpu_idle''))
                         (thresholds two_pattern_config)))"
      using threshold_pattern_resolution[where cfg = two_pattern_config
          and mname = "''cpu_idle''", THEN conjunct2, THEN conjunct1, rule_format,
          OF conjI[OF n1 pa']]
      unfolding match_items_prefix[symmetric] .
    then show ?thesis
      by (simp add: th cpu_star_parse mem_star_parse)
  qed
  have c3: "get_metric_thresholds two_pattern_config ''node_cpu'' = Inr None"
  proof -
    have "get_metric_thresholds two_pattern_config ''node_cpu'' =
            Inr (map_option snd
                   (find (\<lambda>e. CHR ''*'' \<in> set (fst e) \<and>
                              (\<exists>items. re_parse (replace_star (fst e)) = Some items \<and>
                                 match_items items ''node_cpu''))
                         (thresholds two_pattern_config)))"
      using threshold_pattern_resolution[where cfg = two_pattern_config
          and mname = "''node_cpu''", THEN conjunct2, THEN conjunct1, rule_format,
          OF conjI[OF n2 pa']]
      unfolding match_items_prefix[symmetric] .
    then show ?thesis
      by (simp add: th cpu_star_parse mem_star_parse)
  qed
  have c4: "\<not> (\<exists>k \<le> length ''node_cpu''. matches_whole ?items (take k ''node_cpu''))"
    using threshold_pattern_resolution[where lit = "''cpu''" and rest = "''*''"
        and items' = ?items and mname = "''node_cpu''",
        THEN conjunct2, THEN conjunct2, THEN conjunct2] p l
    by (simp add: list_all_iff)
  show ?thesis
    apply (intro conjI)
    apply (rule cpu_config_exact)
    apply (rule c1)
    apply (rule n1)
    apply (rule pa)
    apply (rule c2)
    apply (rule c3)
    apply simp
    apply (rule l)
    apply (rule p)
    apply simp
    apply (rule c4)
    done
qed

section \<open>StatisticalDetector: properties\<close>

lemma max_from_in: "max_from b xs \<in> set (b # xs)"
  by (induction xs arbitrary: b) (auto split: if_splits)

lemma max_from_ge: "x \<in> set (b # xs) \<Longrightarrow> confidence x \<le> confidence (max_from b xs)"
proof (induction xs arbitrary: b x)
  case Nil
  then show ?case by simp
next
  case (Cons a xs)
  have mono: "confidence c \<le> confidence (max_from c xs)" for c
    using Cons.IH[of c c] by simp
  show ?case
  proof (cases "confidence a > confidence b")
    case True
    with Cons.prems Cons.IH[of x a] mono[of a] show ?thesis by auto
  next
    case False
    with Cons.prems Cons.IH[of x b] mono[of b] show ?thesis by auto
  qed
qed

lemma group_add_keys:
  "map fst (group_add a d) =
     (if timestamp a \<in> fst ` set d then map fst d else map fst d @ [timestamp a])"
  by (induction a d rule: group_add.induct) auto

lemma group_add_elems:
  "(\<Union>g \<in> set (group_add a d). set (snd g)) = insert a (\<Union>g \<in> set d. set (snd g))"
  by (induction a d rule: group_add.induct) auto

lemma group_add_wf:
  "\<forall>g \<in> set d. snd g \<noteq> [] \<and> (\<forall>b \<in> set (snd g). timestamp b = fst g) \<Longrightarrow>
   \<forall>g \<in> set (group_add a d). snd g \<noteq> [] \<and> (\<forall>b \<in> set (snd g). timestamp b = fst g)"
proof (induction a d rule: group_add.induct)
  case (1 a)
  show ?case by simp
next
  case (2 a ts anoms rest)
  from "2.prems" have hd: "anoms \<noteq> [] \<and> (\<forall>b \<in> set anoms. timestamp b = ts)"
    and tl: "\<forall>g \<in> set rest. snd g \<noteq> [] \<and> (\<forall>b \<in> set (snd g). timestamp b = fst g)"
    by simp_all
  show ?case
  proof (cases "ts = timestamp a")
    case True
    with hd tl show ?thesis by simp
  next
    case False
    with "2.IH"[OF False tl] hd show ?thesis by simp
  qed
qed

lemma foldl_group_add:
  assumes "distinct (map fst d)"
      and "\<forall>g \<in> set d. snd g \<noteq> [] \<and> (\<forall>b \<in> set (snd g). timestamp b = fst g)"
  shows "distinct (map fst (foldl (\<lambda>d a. group_add a d) d xs)) \<and>
         (\<forall>g \<in> set (foldl (\<lambda>d a. group_add a d) d xs).
             snd g \<noteq> [] \<and> (\<forall>b \<in> set (snd g). timestamp b = fst g)) \<and>
         (\<Union>g \<in> set (foldl (\<lambda>d a. group_add a d) d xs). set (snd g)) =
            set xs \<union> (\<Union>g \<in> set d. set (snd g))"
  using assms
proof (induction xs arbitrary: d)
  case Nil
  then show ?case by simp
next
  case (Cons a xs)
  have d1: "distinct (map fst (group_add a d))"
    using Cons.prems(1) by (auto simp: group_add_keys)
  have d2: "\<forall>g \<in> set (group_add a d). snd g \<noteq> [] \<and> (\<forall>b \<in> set (snd g). timestamp b = fst g)"
    by (rule group_add_wf[OF Cons.prems(2)])
  from Cons.IH[OF d1 d2] show ?case
    by (simp add: group_add_elems)
qed

lemma by_timestamp_groups:
  "distinct (map fst (by_timestamp xs)) \<and>
   (\<forall>g \<in> set (by_timestamp xs). snd g \<noteq> [] \<and> (\<forall>b \<in> set (snd g). timestamp b = fst g)) \<and>
   (\<Union>g \<in> set (by_timestamp xs). set (snd g)) = set xs"
  using foldl_group_add[of "[]" xs] by (simp add: by_timestamp_def)

lemma best_of_groups_eq:
  "\<forall>g \<in> set d. snd g \<noteq> [] \<Longrightarrow>
   best_of_groups d acc = Inr (acc @ map (\<lambda>g. max_from (hd (snd g)) (tl (snd g))) d)"
proof (induction d acc rule: best_of_groups.induct)
  case (1 acc)
  show ?case by simp
next
  case (2 ts anoms rest acc)
  from "2.prems" obtain a as where an: "anoms = a # as" by (cases anoms) auto
  with 2 show ?case by (simp add: max_by_confidence_def)
qed

lemma deduplicate_anomalies_spec:
  "\<exists>out. deduplicate_anomalies xs = Inr out \<and>
     distinct (map timestamp out) \<and> set out \<subseteq> set xs \<and>
     timestamp ` set out = timestamp ` set xs \<and>
     (\<forall>a \<in> set out. \<forall>b \<in> set xs. timestamp b = timestamp a \<longrightarrow> confidence b \<le> confidence a)"
proof (cases "xs = []")
  case True
  then show ?thesis by (simp add: deduplicate_anomalies_def)
next
  case False
  let ?d = "by_timestamp xs"
  let ?best = "\<lambda>g. max_from (hd (snd g)) (tl (snd g))"
  let ?out = "map ?best ?d"
  from by_timestamp_groups[of xs] have
    dist: "distinct (map fst ?d)" and
    wf: "\<forall>g \<in> set ?d. snd g \<noteq> [] \<and> (\<forall>b \<in> set (snd g). timestamp b = fst g)" and
    el: "(\<Union>g \<in> set ?d. set (snd g)) = set xs"
    by blast+
  have eq: "deduplicate_anomalies xs = Inr ?out"
    using False best_of_groups_eq[of ?d "[]"] wf by (simp add: deduplicate_anomalies_def)
  have best_in: "?best g \<in> set (snd g)" if "g \<in> set ?d" for g
  proof -
    from that wf have "snd g \<noteq> []" by blast
    then have "snd g = hd (snd g) # tl (snd g)" by simp
    with max_from_in[of "hd (snd g)" "tl (snd g)"] show ?thesis by simp
  qed
  have best_ts: "timestamp (?best g) = fst g" if "g \<in> set ?d" for g
    using best_in[OF that] wf that by blast
  have best_ge: "confidence b \<le> confidence (?best g)" if "g \<in> set ?d" "b \<in> set (snd g)" for g b
  proof -
    from that wf have "snd g \<noteq> []" by blast
    then have "snd g = hd (snd g) # tl (snd g)" by simp
    with max_from_ge[of b "hd (snd g)" "tl (snd g)"] that(2) show ?thesis by simp
  qed
  have ts_eq: "map timestamp ?out = map fst ?d"
    using best_ts by (simp add: comp_def)
  have c1: "distinct (map timestamp ?out)" unfolding ts_eq by (rule dist)
  have c2: "set ?out \<subseteq> set xs"
  proof
    fix a assume "a \<in> set ?out"
    then obtain g where g: "g \<in> set ?d" "a = ?best g" by auto
    with best_in[OF g(1)] have "a \<in> (\<Union>g \<in> set ?d. set (snd g))" by blast
    then show "a \<in> set xs" by (simp only: el)
  qed
  have c3: "timestamp ` set ?out = timestamp ` set xs"
  proof
    show "timestamp ` set ?out \<subseteq> timestamp ` set xs" using c2 by blast
    show "timestamp ` set xs \<subseteq> timestamp ` set ?out"
    proof
      fix t assume "t \<in> timestamp ` set xs"
      then obtain b where b: "b \<in> set xs" "t = timestamp b" by blast
      with el obtain g where g: "g \<in> set ?d" "b \<in> set (snd g)" by blast
      with wf b have "fst g = t" by auto
      with best_ts[OF g(1)] have "timestamp (?best g) = t" by simp
      moreover from g(1) have "?best g \<in> set ?out" by simp
      ultimately show "t \<in> timestamp ` set ?out" by blast
    qed
  qed
  have c4: "\<forall>a \<in> set ?out. \<forall>b \<in> set xs. timestamp b = timestamp a \<longrightarrow> confidence b \<le> confidence a"
  proof (intro ballI impI)
    fix a b assume a: "a \<in> set ?out" and b: "b \<in> set xs" and t: "timestamp b = timestamp a"
    from a obtain g where g: "g \<in> set ?d" "a = ?best g" by auto
    from b el obtain g' where g': "g' \<in> set ?d" "b \<in> set (snd g')" by blast
    have "fst g' = timestamp b" using wf g' by auto
    also have "\<dots> = fst g" using t g best_ts by simp
    finally have "fst g' = fst g" .
    moreover from dist have "inj_on fst (set ?d)" by (simp add: distinct_map)
    ultimately have "g' = g" using g(1) g'(1) by (blast dest: inj_onD)
    with best_ge[OF g(1)] g' g(2) show "confidence b \<le> confidence a" by simp
  qed
  from eq c1 c2 c3 c4 show ?thesis by blast
qed

lemma zscore_body_eq:
  "zscore_body metric vals mean std idx =
     Inr (Some \<lparr> metric_name = m_name metric, anomaly_type = STATISTICAL_OUTLIER,
       severity = calculate_zscore_severity \<bar>(vals ! idx - mean) / std\<bar>,
       timestamp = mv_timestamp (m_values metric ! idx), an_value = vals ! idx,
       detector_name = ''StatisticalDetector'',
       confidence = min (\<bar>(vals ! idx - mean) / std\<bar> / 5) 1,
       expected_value = Some mean,
       description = Some (ZScore_text (vals ! idx) \<bar>(vals ! idx - mean) / std\<bar> mean),
       metadata = [(''z_score'', Num (round2 \<bar>(vals ! idx - mean) / std\<bar>)),
                   (''mean'', Num (round2 mean)), (''std'', Num (round2 std)),
                   (''detection_method'', Str ''z_score'')],
       labels = [], start_time = None, end_time = None,
       llm_validated = False, llm_status = None \<rparr>)"
  unfolding zscore_body_def Let_def
  by (subst create_anomaly_ok) (simp_all add: found_def)

lemma iqr_conf_range:
  assumes "v < lo \<or> v > up"
  shows "0 \<le> min ((if iqr > 0 then (if v < lo then lo - v else v - up) / iqr else 0) / 2) (1::real)"
    and "min ((if iqr > 0 then (if v < lo then lo - v else v - up) / iqr else 0) / 2) (1::real) \<le> 1"
  using assms by (auto simp: min_def)

lemma iqr_body_eq:
  assumes "vals ! idx < lo \<or> vals ! idx > up"
  shows "\<exists>a. iqr_body metric vals q1 q3 iqr lo up idx = Inr (Some a) \<and>
       timestamp a = mv_timestamp (m_values metric ! idx) \<and>
       confidence a = min ((if iqr > 0 then (if vals ! idx < lo then lo - vals ! idx
                                             else vals ! idx - up) / iqr else 0) / 2) 1 \<and>
       severity a = calculate_iqr_severity (if iqr > 0 then (if vals ! idx < lo then lo - vals ! idx
                                             else vals ! idx - up) / iqr else 0) \<and>
       expected_value a = Some (np_median vals) \<and> an_value a = vals ! idx \<and>
       anomaly_type a = STATISTICAL_OUTLIER"
  unfolding iqr_body_def Let_def
  apply (subst create_anomaly_ok)
    apply (rule iqr_conf_range(1)[OF assms])
   apply (rule iqr_conf_range(2)[OF assms])
  apply (simp add: found_def)
  done

lemma detect_zscore_total:
  "detect_zscore_anomalies cfg metric vals =
     (if np_std vals = 0 then Inr []
      else Inr (List.map_filter (\<lambda>i. emitted (zscore_body metric vals (np_mean vals) (np_std vals) i))
             (filter (\<lambda>i. \<bar>(vals ! i - np_mean vals) / np_std vals\<bar> > z_score_threshold cfg)
                [0 ..< length vals])))"
proof -
  have "emit_loop (zscore_body metric vals m s) is [] =
          Inr (List.map_filter (\<lambda>i. emitted (zscore_body metric vals m s i)) is)" for m s "is"
    using emit_loop_total[of "is" "zscore_body metric vals m s" "[]"]
    by (simp add: zscore_body_eq)
  moreover have "filter (\<lambda>i. map (\<lambda>v. \<bar>(v - m) / s\<bar>) vals ! i > t) [0 ..< length vals] =
      filter (\<lambda>i. \<bar>(vals ! i - m) / s\<bar> > t) [0 ..< length vals]" for m s t
    by (rule filter_cong) simp_all
  ultimately show ?thesis
    unfolding detect_zscore_anomalies_def Let_def by simp
qed

lemma detect_iqr_total:
  "detect_iqr_anomalies cfg metric vals =
     (let q1 = np_percentile vals 25; q3 = np_percentile vals 75; iqr = q3 - q1;
          lo = q1 - iqr_multiplier cfg * iqr; up = q3 + iqr_multiplier cfg * iqr in
      if iqr = 0 then Inr []
      else Inr (List.map_filter (\<lambda>i. emitted (iqr_body metric vals q1 q3 iqr lo up i))
             (filter (\<lambda>i. vals ! i < lo \<or> vals ! i > up) [0 ..< length vals])))"
proof -
  have "emit_loop (iqr_body metric vals q1 q3 iqr lo up)
            (filter (\<lambda>i. vals ! i < lo \<or> vals ! i > up) is) [] =
          Inr (List.map_filter (\<lambda>i. emitted (iqr_body metric vals q1 q3 iqr lo up i))
             (filter (\<lambda>i. vals ! i < lo \<or> vals ! i > up) is))" for q1 q3 iqr lo up "is"
  proof (rule emit_loop_total[where acc = "[]", simplified], rule ballI)
    fix i assume "i \<in> set (filter (\<lambda>i. vals ! i < lo \<or> vals ! i > up) is)"
    then have "vals ! i < lo \<or> vals ! i > up" by simp
    from iqr_body_eq[OF this] show "\<exists>r. iqr_body metric vals q1 q3 iqr lo up i = Inr r" by blast
  qed
  then show ?thesis
    unfolding detect_iqr_anomalies_def Let_def by simp
qed

text \<open>
  C2. On a series of at least ten samples an enabled detector runs both sub-tests
  without raising, and what it returns has pairwise different timestamps, consists of
  candidates of the two sub-tests, covers every timestamp either sub-test flagged,
  and holds for each timestamp a candidate of the highest confidence among all the
  candidates with that timestamp. So a timestamp flagged by both sub-tests yields
  exactly one anomaly, one with the higher of the two confidences.
\<close>

theorem stat_dedup_property:
  assumes "stat_enabled cfg" and "10 \<le> length (m_values metric)"
  shows "\<exists>z q out.
       detect_zscore_anomalies cfg metric (get_values_array metric) = Inr z \<and>
       detect_iqr_anomalies cfg metric (get_values_array metric) = Inr q \<and>
       stat_detect cfg metric = Inr out \<and>
       distinct (map timestamp out) \<and>
       set out \<subseteq> set (z @ q) \<and>
       timestamp ` set out = timestamp ` set (z @ q) \<and>
       (\<forall>a \<in> set out. \<forall>b \<in> set (z @ q).
          timestamp b = timestamp a \<longrightarrow> confidence b \<le> confidence a)"
proof -
  have "\<exists>z. detect_zscore_anomalies cfg metric (get_values_array metric) = Inr z"
    by (simp add: detect_zscore_total)
  then obtain z where z: "detect_zscore_anomalies cfg metric (get_values_array metric) = Inr z" ..
  have "\<exists>q. detect_iqr_anomalies cfg metric (get_values_array metric) = Inr q"
    by (simp add: detect_iqr_total Let_def)
  then obtain q where q: "detect_iqr_anomalies cfg metric (get_values_array metric) = Inr q" ..
  from deduplicate_anomalies_spec[of "z @ q"] obtain out where
    out: "deduplicate_anomalies (z @ q) = Inr out" "distinct (map timestamp out)"
      "set out \<subseteq> set (z @ q)" "timestamp ` set out = timestamp ` set (z @ q)"
      "\<forall>a \<in> set out. \<forall>b \<in> set (z @ q). timestamp b = timestamp a \<longrightarrow> confidence b \<le> confidence a"
    by blast
  have "stat_detect cfg metric = Inr out"
    using assms z q out(1) by (simp add: stat_detect_def validate_metric_def)
  with z q out show ?thesis by blast
qed

lemma outlier_vals:
  "get_values_array outlier_series =
     [9, 9, 9, 9, 9, 9, 9, 9, 11, 11, 11, 11, 11, 11, 11, 11, 18]"
  by (simp add: outlier_series_def minute_series_def get_values_array_def comp_def
        enumerate_eq_zip)

lemma outlier_len: "length (m_values outlier_series) = 17"
  by (simp add: outlier_series_def minute_series_def)

lemma outlier_ts: "mv_timestamp (m_values outlier_series ! 16) = 960"
  by (simp add: outlier_series_def minute_series_def nth_enumerate_eq)

lemma outlier_vlen: "length (get_values_array outlier_series) = 17"
  by (simp add: get_values_array_def outlier_len)

lemma outlier_mean: "np_mean (get_values_array outlier_series) = 178/17"
  by (simp add: outlier_vals np_mean_def)

lemma outlier_std: "np_std (get_values_array outlier_series) = 36/17"
proof -
  have "np_mean (map (\<lambda>x. \<bar>x - 178/17\<bar> ^ 2) (get_values_array outlier_series)) = (36/17)^2"
    by (simp add: outlier_vals np_mean_def power2_eq_square)
  then show ?thesis
    unfolding np_std_def outlier_mean by (simp only: real_sqrt_abs)
qed

lemma upt17: "[0 ..< 17] = [0, 1, 2, 3, 4, 5, 6, 7, 8, 9, 10, 11, 12, 13, 14, 15, 16]"
  by (simp add: upt_rec)

lemma outlier_zscore:
  "\<exists>a. detect_zscore_anomalies stat_defaults outlier_series (get_values_array outlier_series) = Inr [a]
     \<and> timestamp a = 960 \<and> confidence a = 32/45 \<and> severity a = MEDIUM"
  unfolding detect_zscore_total outlier_std outlier_mean outlier_vlen upt17
  by (simp add: outlier_vals zscore_body_eq emitted_def stat_defaults_def outlier_ts
        calculate_zscore_severity_def)

lemma outlier_q: "np_percentile (get_values_array outlier_series) 25 = 9"
   "np_percentile (get_values_array outlier_series) 75 = 11"
  by (simp_all add: outlier_vals np_percentile_def)

lemma outlier_iqr:
  "\<exists>a. detect_iqr_anomalies stat_defaults outlier_series (get_values_array outlier_series) = Inr [a]
     \<and> timestamp a = 960 \<and> confidence a = 1 \<and> severity a = HIGH"
proof -
  have o: "(get_values_array outlier_series) ! 16 < 6 \<or> (get_values_array outlier_series) ! 16 > 14"
    by (simp add: outlier_vals)
  from iqr_body_eq[OF o, of outlier_series 9 11 2] obtain a where
    a: "iqr_body outlier_series (get_values_array outlier_series) 9 11 2 6 14 16 = Inr (Some a)"
       "timestamp a = 960" "confidence a = 1" "severity a = HIGH"
    by (auto simp: outlier_vals outlier_ts calculate_iqr_severity_def)
  show ?thesis
    unfolding detect_iqr_total Let_def outlier_q outlier_vlen upt17
    using a
    by (simp add: stat_defaults_def outlier_vals emitted_def)
qed

theorem stat_dedup_witness:
  "stat_enabled stat_defaults \<and> 10 \<le> length (m_values outlier_series) \<and>
   (\<exists>az aq.
      detect_zscore_anomalies stat_defaults outlier_series (get_values_array outlier_series) = Inr [az] \<and>
      detect_iqr_anomalies stat_defaults outlier_series (get_values_array outlier_series) = Inr [aq] \<and>
      timestamp az = timestamp aq \<and> confidence az < confidence aq \<and>
      stat_detect stat_defaults outlier_series = Inr [aq])"
proof -
  have e: "stat_enabled stat_defaults" by (simp add: stat_defaults_def)
  have l: "10 \<le> length (m_values outlier_series)" by (simp add: outlier_len)
  from outlier_zscore obtain az where
    az: "detect_zscore_anomalies stat_defaults outlier_series (get_values_array outlier_series) = Inr [az]"
        "timestamp az = 960" "confidence az = 32/45" by blast
  from outlier_iqr obtain aq where
    aq: "detect_iqr_anomalies stat_defaults outlier_series (get_values_array outlier_series) = Inr [aq]"
        "timestamp aq = 960" "confidence aq = 1" by blast
  from stat_dedup_property[OF e l] az(1) aq(1) obtain out where
    out: "stat_detect stat_defaults outlier_series = Inr out" "distinct (map timestamp out)"
      "set out \<subseteq> {az, aq}" "timestamp ` set out = {960}"
      "\<forall>a \<in> set out. confidence az \<le> confidence a \<and> confidence aq \<le> confidence a"
    using az(2) aq(2) by auto
  from out(4) obtain x xs where x: "out = x # xs" by (cases out) auto
  have "xs = []"
  proof (cases xs)
    case (Cons y ys)
    with x out(4) have "timestamp x = 960" "timestamp y = 960" by auto
    with x Cons out(2) show ?thesis by simp
  qed simp
  with x have o: "out = [x]" by simp
  with out(3,5) aq(3) az(3) have "x = aq" by auto
  with o out(1) az aq e l show ?thesis by auto
qed

subsection \<open>The statistical detector in exact arithmetic\<close>

lemma zscore_body_fl_exact:
  "zscore_body_fl exact_arith metric vals mean std idx = zscore_body metric vals mean std idx"
  unfolding zscore_body_fl_def zscore_body_def Let_def create_anomaly_fl_exact exact_arith_simps
    calculate_zscore_severity_fl_def calculate_zscore_severity_def
  by (rule refl)

lemma detect_zscore_anomalies_fl_exact:
  "detect_zscore_anomalies_fl exact_arith cfg metric vals = detect_zscore_anomalies cfg metric vals"
proof -
  have "zscore_body_fl exact_arith metric vals mean std = zscore_body metric vals mean std"
    for mean std
    by (rule ext) (rule zscore_body_fl_exact)
  then show ?thesis
    unfolding detect_zscore_anomalies_fl_def detect_zscore_anomalies_def exact_arith_simps Let_def
    by simp
qed

lemma iqr_body_fl_exact:
  "iqr_body_fl exact_arith metric vals q1 q3 iqr lo hi idx = iqr_body metric vals q1 q3 iqr lo hi idx"
  unfolding iqr_body_fl_def iqr_body_def Let_def create_anomaly_fl_exact exact_arith_simps
    calculate_iqr_severity_fl_def calculate_iqr_severity_def
  by (rule refl)

lemma detect_iqr_anomalies_fl_exact:
  "detect_iqr_anomalies_fl exact_arith cfg metric vals = detect_iqr_anomalies cfg metric vals"
proof -
  have "iqr_body_fl exact_arith metric vals q1 q3 iqr lo hi = iqr_body metric vals q1 q3 iqr lo hi"
    for q1 q3 iqr lo hi
    by (rule ext) (rule iqr_body_fl_exact)
  then show ?thesis
    unfolding detect_iqr_anomalies_fl_def detect_iqr_anomalies_def exact_arith_simps Let_def
    by simp
qed

lemma max_from_fl_exact: "max_from_fl exact_arith best anoms = max_from best anoms"
  by (induction anoms arbitrary: best) (simp_all add: exact_arith_simps)

lemma best_of_groups_fl_exact:
  "best_of_groups_fl exact_arith groups acc = best_of_groups groups acc"
  by (induction groups acc rule: best_of_groups.induct)
     (simp_all add: max_by_confidence_fl_def max_by_confidence_def max_from_fl_exact
        split: list.splits)

lemma deduplicate_anomalies_fl_exact:
  "deduplicate_anomalies_fl exact_arith anomalies = deduplicate_anomalies anomalies"
  by (simp add: deduplicate_anomalies_fl_def deduplicate_anomalies_def best_of_groups_fl_exact)

lemma stat_detect_fl_exact: "stat_detect_fl exact_arith cfg metric = stat_detect cfg metric"
  unfolding stat_detect_fl_def stat_detect_def detect_zscore_anomalies_fl_exact
    detect_iqr_anomalies_fl_exact deduplicate_anomalies_fl_exact
  by (rule refl)

section \<open>PatternDetector: the moving-average test\<close>

lemma deviation_confidence_range:
  "5/2 < (d::real) \<Longrightarrow> 0 \<le> min (d / 5) 1" "5/2 < (d::real) \<Longrightarrow> min (d / 5) 1 \<le> 1"
  by simp_all

lemma ma_body_eq:
  "ma_body metric vals ma ma_std i =
     (if ma_std ! i = 0 then Inr None
      else if \<bar>vals ! i - ma ! i\<bar> / ma_std ! i > 5/2 then
        Inr (Some \<lparr> metric_name = m_name metric, anomaly_type = PATTERN_ANOMALY,
          severity = (if \<bar>vals ! i - ma ! i\<bar> / ma_std ! i > 4 then HIGH
                      else if \<bar>vals ! i - ma ! i\<bar> / ma_std ! i > 3 then MEDIUM else LOW),
          timestamp = mv_timestamp (m_values metric ! i), an_value = vals ! i,
          detector_name = ''PatternDetector'',
          confidence = min (\<bar>vals ! i - ma ! i\<bar> / ma_std ! i / 5) 1,
          expected_value = Some (ma ! i),
          description = Some (Deviation_text (vals ! i) (ma ! i) (\<bar>vals ! i - ma ! i\<bar> / ma_std ! i)),
          metadata = [(''deviation_sigma'', Num (round2 (\<bar>vals ! i - ma ! i\<bar> / ma_std ! i))),
                      (''moving_average'', Num (round2 (ma ! i))),
                      (''moving_std'', Num (round2 (ma_std ! i))),
                      (''detection_method'', Str ''moving_average'')],
          labels = [], start_time = None, end_time = None,
          llm_validated = False, llm_status = None \<rparr>)
      else Inr None)"
proof (cases "ma_std ! i = 0")
  case True
  then show ?thesis by (simp add: ma_body_def)
next
  case nz: False
  show ?thesis
  proof (cases "\<bar>vals ! i - ma ! i\<bar> / ma_std ! i > 5/2")
    case True
    note c = deviation_confidence_range[OF True]
    show ?thesis
      by (simp only: ma_body_def Let_def nz True if_True if_False create_anomaly_ok[OF c]
            found_def sum.case)
  next
    case False
    with nz show ?thesis by (simp add: ma_body_def)
  qed
qed

lemma moving_average_nth:
  "i < length vals \<Longrightarrow> w \<le> i \<Longrightarrow>
     calculate_moving_average vals w ! i = np_mean (py_slice vals (i - w) i)"
  by (simp add: calculate_moving_average_def)

lemma moving_std_nth:
  "i < length vals \<Longrightarrow> w \<le> i \<Longrightarrow>
     calculate_moving_std vals w ! i = np_std (py_slice vals (i - w) i)"
  by (simp add: calculate_moving_std_def)

lemma ma_body_fl_cases:
  "ma_body_fl ar metric vals ma ma_std i =
     (let deviation = fl_div ar (fl_abs ar (fl_sub ar (vals ! i) (ma ! i))) (ma_std ! i);
          conf = min_fl ar (fl_div ar deviation (fl_const ar 5)) (fl_const ar 1)
      in if fl_eq ar (ma_std ! i) (fl_const ar 0) then Inr None
         else if \<not> fl_lt ar (fl_const ar (5/2)) deviation then Inr None
         else if \<not> in_unit_fl ar conf then Inl ValueError
         else Inr (Some \<lparr> metric_name = m_name metric, anomaly_type = PATTERN_ANOMALY,
                severity = (if fl_lt ar (fl_const ar 4) deviation then HIGH
                            else if fl_lt ar (fl_const ar 3) deviation then MEDIUM else LOW),
                timestamp = mv_timestamp (m_values metric ! i), an_value = vals ! i,
                detector_name = ''PatternDetector'',
                confidence = conf,
                expected_value = Some (ma ! i),
                description = Some (Deviation_text (vals ! i) (ma ! i) deviation),
                metadata = [(''deviation_sigma'', Num (fl_round ar 2 deviation)),
                            (''moving_average'', Num (fl_round ar 2 (ma ! i))),
                            (''moving_std'', Num (fl_round ar 2 (ma_std ! i))),
                            (''detection_method'', Str ''moving_average'')],
                labels = [], start_time = None, end_time = None,
                llm_validated = False, llm_status = None \<rparr>))"
  by (simp add: ma_body_fl_def create_anomaly_fl_eq found_def Let_def)

lemma moving_average_fl_nth:
  "i < length vals \<Longrightarrow> w \<le> i \<Longrightarrow>
     calculate_moving_average_fl ar vals w ! i = fl_mean ar (py_slice vals (i - w) i)"
  by (simp add: calculate_moving_average_fl_def)

lemma moving_std_fl_nth:
  "i < length vals \<Longrightarrow> w \<le> i \<Longrightarrow>
     calculate_moving_std_fl ar vals w ! i = fl_std ar (py_slice vals (i - w) i)"
  by (simp add: calculate_moving_std_fl_def)

text \<open>
  C7, amended. The statement is about the values the program computes, in whatever
  arithmetic it runs. The moving-average test returns exactly what its loop emits
  over the positions from \<open>window_size\<close> on, unless the constructor rejects a
  confidence. At such a position the moving average and the moving standard
  deviation are \<open>np.mean\<close> and \<open>np.std\<close> of the \<open>window_size\<close> samples
  before it. The position is skipped when the computed deviation equals zero;
  otherwise it is flagged exactly when the computed ratio
  \<open>|value - moving_average| / moving_std\<close> is greater than 2.5. The severity of
  the anomaly is high when that ratio is greater than 4.0, medium when it is
  greater than 3.0, else low; its confidence is \<open>min(ratio / 5, 1.0)\<close> and its
  expected value is the moving average.
\<close>

theorem ma_deviation_rule:
  assumes "window_size cfg \<le> i" and "i < length (m_values metric)"
  shows
    "let vals = get_values_array metric;
         w = window_size cfg;
         body = ma_body_fl ar metric vals (calculate_moving_average_fl ar vals w)
                  (calculate_moving_std_fl ar vals w);
         positions = [w ..< length vals];
         win = py_slice vals (i - w) i;
         moving_average = fl_mean ar win;
         moving_std = fl_std ar win;
         deviation = fl_div ar (fl_abs ar (fl_sub ar (vals ! i) moving_average)) moving_std;
         conf = min_fl ar (fl_div ar deviation (fl_const ar 5)) (fl_const ar 1);
         flagged = (\<not> fl_eq ar moving_std (fl_const ar 0) \<and> fl_lt ar (fl_const ar (5/2)) deviation)
     in ((detect_moving_average_deviations_fl ar cfg metric vals = Inr out) =
           ((\<forall>j \<in> set positions. \<exists>r. body j = Inr r) \<and>
            out = List.map_filter (\<lambda>j. emitted (body j)) positions)) \<and>
        ((body i \<noteq> Inr None) = flagged) \<and>
        (flagged \<and> \<not> in_unit_fl ar conf \<longrightarrow> body i = Inl ValueError) \<and>
        (flagged \<and> in_unit_fl ar conf \<longrightarrow>
           (\<exists>a. body i = Inr (Some a) \<and>
                severity a = (if fl_lt ar (fl_const ar 4) deviation then HIGH
                              else if fl_lt ar (fl_const ar 3) deviation then MEDIUM else LOW) \<and>
                confidence a = conf \<and>
                expected_value a = Some moving_average \<and>
                an_value a = vals ! i \<and>
                timestamp a = mv_timestamp (m_values metric ! i)))"
proof -
  let ?vals = "get_values_array metric"
  let ?w = "window_size cfg"
  let ?body = "ma_body_fl ar metric ?vals (calculate_moving_average_fl ar ?vals ?w)
                  (calculate_moving_std_fl ar ?vals ?w)"
  have i: "i < length ?vals" using assms(2) by (simp add: get_values_array_def)
  have A: "(detect_moving_average_deviations_fl ar cfg metric ?vals = Inr out) =
           ((\<forall>j \<in> set [?w ..< length ?vals]. \<exists>r. ?body j = Inr r) \<and>
            out = List.map_filter (\<lambda>j. emitted (?body j)) [?w ..< length ?vals])"
    by (simp add: detect_moving_average_deviations_fl_def emit_loop_iff Let_def)
  show ?thesis
    unfolding Let_def
    apply (rule conjI)
     apply (rule A)
    apply (simp add: ma_body_fl_cases Let_def moving_average_fl_nth[OF i assms(1)]
        moving_std_fl_nth[OF i assms(1)])
    done
qed


lemma ma_body_fl_exact:
  "ma_body_fl exact_arith metric vals ma ma_std i = ma_body metric vals ma ma_std i"
  unfolding ma_body_fl_def ma_body_def Let_def create_anomaly_fl_exact exact_arith_simps
  by (rule refl)

lemma moving_fl_exact:
  "calculate_moving_average_fl exact_arith vals w = calculate_moving_average vals w"
  "calculate_moving_std_fl exact_arith vals w = calculate_moving_std vals w"
  by (simp_all add: calculate_moving_average_fl_def calculate_moving_average_def
        calculate_moving_std_fl_def calculate_moving_std_def exact_arith_simps)

lemma detect_moving_average_deviations_fl_exact:
  "detect_moving_average_deviations_fl exact_arith cfg metric vals =
     detect_moving_average_deviations cfg metric vals"
proof -
  have "ma_body_fl exact_arith metric vals ma ma_std = ma_body metric vals ma ma_std"
    for ma ma_std
    by (rule ext) (rule ma_body_fl_exact)
  then show ?thesis
    by (simp add: detect_moving_average_deviations_fl_def detect_moving_average_deviations_def
          moving_fl_exact)
qed

lemma jump_vals: "get_values_array jump_series = [0, 2, 5, 2]"
  by (simp add: jump_series_def minute_series_def get_values_array_def comp_def enumerate_eq_zip)

lemma jump_window: "py_slice (get_values_array jump_series) (2 - window_size window2) 2 = [0, 2]"
  by (simp add: jump_vals py_slice_def window2_def)

lemma jump_stats: "np_mean [0, 2] = 1" "np_std [0, 2] = 1"
  by (simp_all add: np_mean_def np_std_def)

lemma jump_ts: "mv_timestamp (m_values jump_series ! 2) = 120"
  by (simp add: jump_series_def minute_series_def nth_enumerate_eq)

text \<open>
  C7 as stated fails at the band limits: with a window of two samples, the series
  \<open>[0, 2, 5, 2]\<close> has moving average 1 and moving deviation 1 at the third sample,
  so the ratio is exactly 4, and the severity is medium, not high.
\<close>

theorem ma_severity_band_counterexample:
  "\<exists>a. ma_body jump_series (get_values_array jump_series)
           (calculate_moving_average (get_values_array jump_series) (window_size window2))
           (calculate_moving_std (get_values_array jump_series) (window_size window2)) 2
         = Inr (Some a) \<and>
       \<bar>get_values_array jump_series ! 2 - np_mean [0, 2]\<bar> / np_std [0, 2] = 4 \<and>
       severity a = MEDIUM"
proof -
  have l: "2 < length (get_values_array jump_series)" by (simp add: jump_vals)
  have w: "window_size window2 \<le> 2" by (simp add: window2_def)
  show ?thesis
    unfolding ma_body_eq moving_average_nth[OF l w] moving_std_nth[OF l w] jump_window jump_stats
    by (simp add: jump_vals)
qed

theorem ma_deviation_rule_witness:
  "window_size window2 \<le> 2 \<and> 2 < length (m_values jump_series) \<and>
   \<not> fl_eq exact_arith (fl_std exact_arith [0, 2]) (fl_const exact_arith 0) \<and>
   fl_lt exact_arith (fl_const exact_arith (5/2)) 4 \<and>
   in_unit_fl exact_arith (4/5) \<and>
   (\<exists>a. detect_moving_average_deviations_fl exact_arith window2 jump_series
           (get_values_array jump_series) = Inr [a] \<and>
        severity a = MEDIUM \<and> confidence a = 4/5 \<and> expected_value a = Some 1 \<and>
        an_value a = 5 \<and> timestamp a = 120)"
proof -
  let ?body = "ma_body_fl exact_arith jump_series (get_values_array jump_series)
           (calculate_moving_average_fl exact_arith (get_values_array jump_series) (window_size window2))
           (calculate_moving_std_fl exact_arith (get_values_array jump_series) (window_size window2))"
  have w: "window_size window2 \<le> 2" by (simp add: window2_def)
  have l: "2 < length (m_values jump_series)"
    by (simp add: jump_series_def minute_series_def)
  have l3: "3 < length (m_values jump_series)"
    by (simp add: jump_series_def minute_series_def)
  have w3: "window_size window2 \<le> 3" by (simp add: window2_def)
  have win3: "py_slice (get_values_array jump_series) (3 - window_size window2) 3 = [2, 5]"
    by (simp add: jump_vals py_slice_def window2_def)
  have s3: "np_mean [2, 5] = 7/2" "np_std [2, 5] = 3/2"
  proof -
    show m: "np_mean [2, 5] = 7/2" by (simp add: np_mean_def)
    have "np_mean (map (\<lambda>x. \<bar>x - 7/2\<bar> ^ 2) [2, 5]) = (3/2)^2"
      by (simp add: np_mean_def power2_eq_square)
    then show "np_std [2, 5] = 3/2"
      unfolding np_std_def m by (simp only: real_sqrt_abs)
  qed
  have idx: "[window_size window2 ..< length (get_values_array jump_series)] = [2, 3]"
    by (simp add: jump_vals window2_def upt_rec)
  note t2 = ma_deviation_rule[where ar = exact_arith, OF w l, unfolded Let_def exact_arith_simps
      jump_window jump_stats]
  note t3 = ma_deviation_rule[where ar = exact_arith, OF w3 l3, unfolded Let_def exact_arith_simps
      win3 s3]
  from t2[THEN conjunct2] obtain a where
    a: "?body 2 = Inr (Some a)"
       "severity a = MEDIUM" "confidence a = 4/5" "expected_value a = Some 1"
       "an_value a = 5" "timestamp a = 120"
    by (auto simp: jump_vals jump_ts)
  from t3[THEN conjunct2] have b: "?body 3 = Inr None"
    by (auto simp: jump_vals)
  from t2[where out = "[a]", THEN conjunct1] have
    "detect_moving_average_deviations_fl exact_arith window2 jump_series
       (get_values_array jump_series) = Inr [a]"
    unfolding idx by (simp add: a b emitted_def)
  with a w l show ?thesis by (auto simp: exact_arith_simps jump_stats)
qed


section \<open>Confidence of emitted anomalies\<close>

lemma emit_loop_all:
  assumes "emit_loop body is acc = Inr out"
    and "\<And>i a. body i = Inr (Some a) \<Longrightarrow> P a"
    and "\<forall>a \<in> set acc. P a"
  shows "\<forall>a \<in> set out. P a"
proof -
  from emit_loop_Inr[OF assms(1)] have
    out: "out = acc @ List.map_filter (\<lambda>i. emitted (body i)) is" by blast
  have "P a" if "a \<in> set (List.map_filter (\<lambda>i. emitted (body i)) is)" for a
  proof -
    from that obtain i where "emitted (body i) = Some a"
      by (auto simp: List.map_filter_def)
    then have "body i = Inr (Some a)"
      by (auto simp: emitted_def split: sum.splits)
    then show ?thesis by (rule assms(2))
  qed
  with assms(3) out show ?thesis by auto
qed

lemma found_create_confidence:
  "found (create_anomaly n metric atype sev ts v conf descr ex md) = Inr (Some a) \<Longrightarrow>
     in_unit (confidence a)"
  unfolding in_unit_def
  by (auto simp: found_def split: sum.splits dest: create_anomaly_confidence)

lemma spike_body_confidence:
  "spike_body cfg metric i = Inr (Some a) \<Longrightarrow> in_unit (confidence a)"
  unfolding spike_body_def Let_def in_unit_def
  by (auto split: option.splits if_splits sum.splits dest: create_anomaly_confidence)

lemma zscore_body_confidence:
  "zscore_body metric vals mean std idx = Inr (Some a) \<Longrightarrow> in_unit (confidence a)"
  unfolding zscore_body_def Let_def by (rule found_create_confidence)

lemma iqr_body_confidence:
  "iqr_body metric vals q1 q3 iqr lo up idx = Inr (Some a) \<Longrightarrow> in_unit (confidence a)"
  unfolding iqr_body_def Let_def by (rule found_create_confidence)

lemma trend_body_confidence:
  "trend_body metric vals gradient window idx = Inr (Some a) \<Longrightarrow> in_unit (confidence a)"
  unfolding trend_body_def Let_def
  by (auto split: if_splits dest: found_create_confidence)

lemma ma_body_confidence:
  "ma_body metric vals ma ma_std i = Inr (Some a) \<Longrightarrow> in_unit (confidence a)"
  unfolding ma_body_def Let_def
  by (auto split: if_splits dest: found_create_confidence)

lemma check_thresholds_confidence:
  "check_thresholds metric v ts th = Inr (Some a) \<Longrightarrow> in_unit (confidence a)"
  unfolding check_thresholds_def create_threshold_anomaly_def Let_def
  by (auto split: option.splits dest: found_create_confidence)

lemma spike_detect_confidence:
  "spike_detect cfg metric = Inr out \<Longrightarrow> \<forall>a \<in> set out. in_unit (confidence a)"
  unfolding spike_detect_def
  by (auto split: if_splits dest!: emit_loop_all[where P = "\<lambda>a. in_unit (confidence a)"]
        intro: spike_body_confidence)

lemma detect_zscore_confidence:
  "detect_zscore_anomalies cfg metric vals = Inr out \<Longrightarrow> \<forall>a \<in> set out. in_unit (confidence a)"
  unfolding detect_zscore_anomalies_def Let_def
  by (auto split: if_splits dest!: emit_loop_all[where P = "\<lambda>a. in_unit (confidence a)"]
        intro: zscore_body_confidence)

lemma detect_iqr_confidence:
  "detect_iqr_anomalies cfg metric vals = Inr out \<Longrightarrow> \<forall>a \<in> set out. in_unit (confidence a)"
  unfolding detect_iqr_anomalies_def Let_def
  by (auto split: if_splits dest!: emit_loop_all[where P = "\<lambda>a. in_unit (confidence a)"]
        intro: iqr_body_confidence)

lemma stat_detect_confidence:
  assumes "stat_detect cfg metric = Inr out"
  shows "\<forall>a \<in> set out. in_unit (confidence a)"
proof (cases "stat_enabled cfg \<and> validate_metric metric 10")
  case False
  with assms show ?thesis by (auto simp: stat_detect_def split: if_splits)
next
  case True
  with assms obtain z q where
    z: "detect_zscore_anomalies cfg metric (get_values_array metric) = Inr z" and
    q: "detect_iqr_anomalies cfg metric (get_values_array metric) = Inr q" and
    d: "deduplicate_anomalies (z @ q) = Inr out"
    by (auto simp: stat_detect_def Let_def split: sum.splits)
  from deduplicate_anomalies_spec[of "z @ q"] d have "set out \<subseteq> set z \<union> set q" by auto
  with detect_zscore_confidence[OF z] detect_iqr_confidence[OF q] show ?thesis by blast
qed

lemma threshold_detect_confidence:
  "threshold_detect cfg metric = Inr out \<Longrightarrow> \<forall>a \<in> set out. in_unit (confidence a)"
  unfolding threshold_detect_def
  by (auto split: if_splits sum.splits option.splits
        dest!: emit_loop_all[where P = "\<lambda>a. in_unit (confidence a)"]
        intro: check_thresholds_confidence)

lemma detect_trend_confidence:
  "detect_trend_changes cfg metric vals = Inr out \<Longrightarrow> \<forall>a \<in> set out. in_unit (confidence a)"
  unfolding detect_trend_changes_def Let_def
  by (auto split: sum.splits dest!: emit_loop_all[where P = "\<lambda>a. in_unit (confidence a)"]
        intro: trend_body_confidence)

lemma detect_ma_confidence:
  "detect_moving_average_deviations cfg metric vals = Inr out \<Longrightarrow>
     \<forall>a \<in> set out. in_unit (confidence a)"
  unfolding detect_moving_average_deviations_def Let_def
  by (auto dest!: emit_loop_all[where P = "\<lambda>a. in_unit (confidence a)"]
        intro: ma_body_confidence)

lemma pattern_detect_confidence:
  "pattern_detect cfg metric = Inr out \<Longrightarrow> \<forall>a \<in> set out. in_unit (confidence a)"
  unfolding pattern_detect_def Let_def
  by (auto split: if_splits sum.splits dest!: detect_trend_confidence detect_ma_confidence)

text \<open>
  C5. The constructor check returns the anomaly unchanged when its confidence lies
  in \<open>[0, 1]\<close> and raises \<open>ValueError\<close> otherwise, so the shared helper raises
  for every confidence outside that range. Whatever one of the four detectors
  returns, every anomaly in it has a confidence in \<open>[0, 1]\<close>.
\<close>

theorem confidence_bound:
  "(post_init a = Inr b \<longrightarrow> b = a \<and> 0 \<le> confidence b \<and> confidence b \<le> 1) \<and>
   (\<not> (0 \<le> confidence a \<and> confidence a \<le> 1) \<longrightarrow> post_init a = Inl ValueError) \<and>
   (\<not> (0 \<le> conf \<and> conf \<le> 1) \<longrightarrow>
      create_anomaly n metric atype sev ts v conf descr ex md = Inl ValueError) \<and>
   (spike_detect scfg metric = Inr spike_out \<longrightarrow>
      (\<forall>x \<in> set spike_out. 0 \<le> confidence x \<and> confidence x \<le> 1)) \<and>
   (stat_detect stcfg metric = Inr stat_out \<longrightarrow>
      (\<forall>x \<in> set stat_out. 0 \<le> confidence x \<and> confidence x \<le> 1)) \<and>
   (threshold_detect tcfg metric = Inr threshold_out \<longrightarrow>
      (\<forall>x \<in> set threshold_out. 0 \<le> confidence x \<and> confidence x \<le> 1)) \<and>
   (pattern_detect pcfg metric = Inr pattern_out \<longrightarrow>
      (\<forall>x \<in> set pattern_out. 0 \<le> confidence x \<and> confidence x \<le> 1))"
  using post_init_Inr[of a b] spike_detect_confidence[of scfg metric spike_out]
    stat_detect_confidence[of stcfg metric stat_out] threshold_detect_confidence[of tcfg metric threshold_out]
    pattern_detect_confidence[of pcfg metric pattern_out]
  by (auto simp add: in_unit_def post_init_def create_anomaly_def)

lemma np_std_nonneg: "0 \<le> np_std xs"
  unfolding np_std_def np_mean_def
  by (intro real_sqrt_ge_zero divide_nonneg_nonneg sum_list_nonneg) auto

lemma trend_confidence_range:
  "0 \<le> (if np_std g = 0 then 1 else min (\<bar>x\<bar> / np_std g) 1)"
  "(if np_std g = 0 then 1 else min (\<bar>x\<bar> / np_std g) 1) \<le> 1"
  using np_std_nonneg[of g] by auto

lemma trend_body_total: "\<exists>r. trend_body metric vals gradient window idx = Inr r"
  unfolding trend_body_def Let_def
  by (simp add: create_anomaly_ok[OF trend_confidence_range] found_def)

lemma detect_trend_total:
  assumes "2 \<le> length vals" and "2 \<le> window_size cfg"
  shows "\<exists>out. detect_trend_changes cfg metric vals = Inr out"
proof -
  from assms(1) obtain g where g: "np_gradient vals = Inr g" "length g = length vals"
    by (auto simp: np_gradient_def Let_def)
  from assms(2) have w: "window_size cfg div 2 \<noteq> 0" by auto
  from g(2) assms(1) have "g \<noteq> []" by auto
  with w have "\<exists>sm. smooth_gradient g (window_size cfg div 2) = Inr sm"
    by (simp add: smooth_gradient_def Let_def)
  then obtain sm where sm: "smooth_gradient g (window_size cfg div 2) = Inr sm" ..
  have "emit_loop (trend_body metric vals g (window_size cfg div 2)) is [] =
      Inr (List.map_filter (\<lambda>i. emitted (trend_body metric vals g (window_size cfg div 2) i)) is)"
    for "is"
    using emit_loop_total[of "is" "trend_body metric vals g (window_size cfg div 2)" "[]"]
      trend_body_total by simp
  then show ?thesis
    by (simp add: detect_trend_changes_def Let_def g(1) sm)
qed

lemma create_anomaly_labels:
  "create_anomaly n metric atype sev ts v conf descr ex md = Inr a \<Longrightarrow>
     labels a = [] \<and> \<not> llm_validated a \<and> llm_status a = None"
  by (auto simp: create_anomaly_def post_init_def split: if_splits)

lemma loud_spike_raises: "spike_detect loud_config spike_scenario = Inl ValueError"
proof -
  have idx: "[1 ..< 7] = [1, 2, 3, 4, 5, Suc 5]" by (simp add: upt_rec)
  show ?thesis
    by (simp add: spike_detect_def validate_metric_def get_values_array_def
        spike_scenario_values idx spike_body_def spike_percent_change_def loud_config_def
        create_anomaly_def post_init_def)
qed

lemma outlier_stat_detect:
  "\<exists>out. stat_detect stat_defaults outlier_series = Inr out \<and> out \<noteq> []"
proof -
  from outlier_zscore obtain az where
    az: "detect_zscore_anomalies stat_defaults outlier_series (get_values_array outlier_series) = Inr [az]"
    by blast
  from outlier_iqr obtain aq where
    aq: "detect_iqr_anomalies stat_defaults outlier_series (get_values_array outlier_series) = Inr [aq]"
    by blast
  from deduplicate_anomalies_spec[of "[az, aq]"] obtain out where
    out: "deduplicate_anomalies [az, aq] = Inr out" "timestamp ` set out = timestamp ` set [az, aq]"
    by blast
  from out(2) have "out \<noteq> []" by auto
  moreover have "stat_detect stat_defaults outlier_series = Inr out"
    using az aq out(1)
    by (simp add: stat_detect_def validate_metric_def outlier_len stat_defaults_def)
  ultimately show ?thesis by blast
qed

lemma cpu_threshold_run:
  "\<exists>out. threshold_detect cpu_config (minute_series ''cpu_usage'' [95, 60]) = Inr out \<and> out \<noteq> []"
proof -
  let ?m = "minute_series ''cpu_usage'' [95, 60]"
  have n: "m_name ?m = ''cpu_usage''" by (simp add: minute_series_def)
  have v: "m_values ?m = [\<lparr> mv_timestamp = 0, mv_value = 95, mv_labels = [] \<rparr>,
                          \<lparr> mv_timestamp = 60, mv_value = 60, mv_labels = [] \<rparr>]"
    by (simp add: minute_series_def enumerate_eq_zip upt_rec)
  have c1: "\<exists>a. check_thresholds ?m 95 0 cpu_bounds = Inr (Some a)"
    by (simp add: check_thresholds_def breached_def cpu_bounds_def create_threshold_anomaly_eq
          found_def)
  have c2: "check_thresholds ?m 60 60 cpu_bounds = Inr None"
    by (simp add: check_thresholds_def breached_def cpu_bounds_def)
  from c1 obtain a where a: "check_thresholds ?m 95 0 cpu_bounds = Inr (Some a)" ..
  have e: "threshold_enabled cpu_config" by (simp add: cpu_config_def)
  have b: "cpu_bounds \<noteq> []" by (simp add: cpu_bounds_def)
  have "threshold_detect cpu_config ?m = Inr [a]"
    using e b by (simp add: threshold_detect_def validate_metric_def n cpu_config_resolves v a c2)
  then show ?thesis by blast
qed

lemma jump_pattern_run:
  "\<exists>out. pattern_detect window2 jump_series = Inr out \<and> out \<noteq> []"
proof -
  have l: "length (m_values jump_series) = 4" by (simp add: jump_series_def minute_series_def)
  have w: "window_size window2 = 2" "pattern_enabled window2" by (simp_all add: window2_def)
  from detect_trend_total[of "get_values_array jump_series" window2 jump_series]
  obtain tr where tr: "detect_trend_changes window2 jump_series (get_values_array jump_series) = Inr tr"
    by (auto simp: jump_vals w)
  have ma: "\<exists>out. detect_moving_average_deviations window2 jump_series (get_values_array jump_series)
      = Inr out \<and> out \<noteq> []"
  proof -
    have i: "2 < length (get_values_array jump_series)" by (simp add: jump_vals)
    have s: "calculate_moving_std (get_values_array jump_series) 2 ! 2 = 1"
      "calculate_moving_average (get_values_array jump_series) 2 ! 2 = 1"
      using moving_std_nth[OF i, of 2] moving_average_nth[OF i, of 2] jump_window
      by (simp_all add: w jump_stats)
    have "\<exists>a. ma_body jump_series (get_values_array jump_series)
        (calculate_moving_average (get_values_array jump_series) 2)
        (calculate_moving_std (get_values_array jump_series) 2) 2 = Inr (Some a)"
      unfolding ma_body_eq s by (simp add: jump_vals)
    then obtain a where a: "ma_body jump_series (get_values_array jump_series)
        (calculate_moving_average (get_values_array jump_series) 2)
        (calculate_moving_std (get_values_array jump_series) 2) 2 = Inr (Some a)" ..
    have all: "\<forall>j \<in> set [2 ..< length (get_values_array jump_series)].
       \<exists>r. ma_body jump_series (get_values_array jump_series)
        (calculate_moving_average (get_values_array jump_series) 2)
        (calculate_moving_std (get_values_array jump_series) 2) j = Inr r"
      by (simp add: ma_body_eq)
    have idx: "[2 ..< length (get_values_array jump_series)] = 2 # [3 ..< 4]"
      by (simp add: jump_vals upt_rec)
    show ?thesis
      unfolding detect_moving_average_deviations_def Let_def w emit_loop_total[OF all]
      unfolding idx by (simp add: a emitted_def)
  qed
  then obtain mo where mo: "detect_moving_average_deviations window2 jump_series
      (get_values_array jump_series) = Inr mo" "mo \<noteq> []" by blast
  have "pattern_detect window2 jump_series = Inr (tr @ mo)"
    by (simp add: pattern_detect_def Let_def w validate_metric_def l tr mo)
  with mo(2) show ?thesis by blast
qed

theorem confidence_bound_witness:
  "post_init \<lparr> metric_name = ''cpu'', anomaly_type = SPIKE, severity = HIGH, timestamp = 0,
              an_value = 300, detector_name = ''SpikeDetector'', confidence = 3/2,
              expected_value = Some 100, description = None, metadata = [], labels = [],
              start_time = None, end_time = None, llm_validated = False,
              llm_status = None \<rparr> = Inl ValueError \<and>
   spike_detect loud_config spike_scenario = Inl ValueError \<and>
   (\<exists>out. spike_detect spike_defaults spike_scenario = Inr out \<and> out \<noteq> [] \<and>
      list_all (\<lambda>x. 0 \<le> confidence x \<and> confidence x \<le> 1) out) \<and>
   (\<exists>out. stat_detect stat_defaults outlier_series = Inr out \<and> out \<noteq> [] \<and>
      list_all (\<lambda>x. 0 \<le> confidence x \<and> confidence x \<le> 1) out) \<and>
   (\<exists>out. threshold_detect cpu_config (minute_series ''cpu_usage'' [95, 60]) = Inr out \<and>
      out \<noteq> [] \<and> list_all (\<lambda>x. 0 \<le> confidence x \<and> confidence x \<le> 1) out) \<and>
   (\<exists>out. pattern_detect window2 jump_series = Inr out \<and> out \<noteq> [] \<and>
      list_all (\<lambda>x. 0 \<le> confidence x \<and> confidence x \<le> 1) out)"
proof -
  let ?bad = "\<lparr> metric_name = ''cpu'', anomaly_type = SPIKE, severity = HIGH, timestamp = 0,
              an_value = 300, detector_name = ''SpikeDetector'', confidence = 3/2,
              expected_value = Some 100, description = None, metadata = [], labels = [],
              start_time = None, end_time = None, llm_validated = False,
              llm_status = None \<rparr>"
  from spike_scenario_run obtain o1 where
    o1: "spike_detect spike_defaults spike_scenario = Inr o1" "o1 \<noteq> []" by auto
  from outlier_stat_detect obtain o2 where
    o2: "stat_detect stat_defaults outlier_series = Inr o2" "o2 \<noteq> []" by blast
  from cpu_threshold_run obtain o3 where
    o3: "threshold_detect cpu_config (minute_series ''cpu_usage'' [95, 60]) = Inr o3" "o3 \<noteq> []"
    by blast
  from jump_pattern_run obtain o4 where
    o4: "pattern_detect window2 jump_series = Inr o4" "o4 \<noteq> []" by blast
  have p: "post_init ?bad = Inl ValueError"
    using confidence_bound[where a = ?bad, THEN conjunct2, THEN conjunct1] by simp
  have c1: "list_all (\<lambda>x. 0 \<le> confidence x \<and> confidence x \<le> 1) o1"
    using confidence_bound[where scfg = spike_defaults and metric = spike_scenario
        and spike_out = o1, THEN conjunct2, THEN conjunct2, THEN conjunct2, THEN conjunct1]
      o1(1) by (simp add: list_all_iff)
  have c2: "list_all (\<lambda>x. 0 \<le> confidence x \<and> confidence x \<le> 1) o2"
    using confidence_bound[where stcfg = stat_defaults and metric = outlier_series
        and stat_out = o2, THEN conjunct2, THEN conjunct2, THEN conjunct2, THEN conjunct2,
        THEN conjunct1]
      o2(1) by (simp add: list_all_iff)
  have c3: "list_all (\<lambda>x. 0 \<le> confidence x \<and> confidence x \<le> 1) o3"
    using confidence_bound[where tcfg = cpu_config
        and metric = "minute_series ''cpu_usage'' [95, 60]" and threshold_out = o3,
        THEN conjunct2, THEN conjunct2, THEN conjunct2, THEN conjunct2, THEN conjunct2,
        THEN conjunct1]
      o3(1) by (simp add: list_all_iff)
  have c4: "list_all (\<lambda>x. 0 \<le> confidence x \<and> confidence x \<le> 1) o4"
    using confidence_bound[where pcfg = window2 and metric = jump_series and pattern_out = o4,
        THEN conjunct2, THEN conjunct2, THEN conjunct2, THEN conjunct2, THEN conjunct2,
        THEN conjunct2]
      o4(1) by (simp add: list_all_iff)
  show ?thesis
    apply (intro conjI)
         apply (rule p)
        apply (rule loud_spike_raises)
       apply (rule exI[of _ o1], simp add: o1 c1)
      apply (rule exI[of _ o2], simp add: o2 c2)
     apply (rule exI[of _ o3], simp add: o3 c3)
    apply (rule exI[of _ o4], simp add: o4 c4)
    done
qed

section \<open>Short and degenerate series, and labels\<close>







text \<open>
  C9 does not hold of the code: \<open>_create_anomaly\<close> never passes \<open>labels\<close>, so
  an emitted anomaly has the empty default whatever labels its sample carries. Here
  the second sample carries \<open>instance = web-1\<close> and the spike emitted for it has
  no label.
\<close>

theorem labels_left_empty:
  "\<exists>a. spike_detect spike_defaults labelled_series = Inr [a] \<and>
       mv_labels (m_values labelled_series ! 1) = [(''instance'', ''web-1'')] \<and>
       timestamp a = mv_timestamp (m_values labelled_series ! 1) \<and>
       labels a = []"
proof -
  have s: "0 \<le> sensitivity spike_defaults" "sensitivity spike_defaults \<le> 1"
    by (simp_all add: spike_defaults_def)
  have f: "min_change_percent spike_defaults = 50" "sensitivity spike_defaults = 4/5"
    "spike_enabled spike_defaults" by (simp_all add: spike_defaults_def)
  have idx: "[1 ..< 2] = [1]" by (simp add: upt_rec)
  show ?thesis
    by (simp add: spike_detect_def validate_metric_def get_values_array_def labelled_series_def
        idx spike_body_cases[OF s] spike_percent_change_def f)
qed

section \<open>Enrichment: properties\<close>

lemma anomaly_type_roundtrip: "anomaly_type_of (anomaly_type_value t) = Inr t"
  by (cases t) (simp_all add: anomaly_type_of_def)

lemma severity_roundtrip: "severity_of (severity_value s) = Inr s"
  by (cases s) (simp_all add: severity_of_def)

lemma from_dict_to_dict:
  "\<not> llm_validated a \<Longrightarrow> llm_status a = None \<Longrightarrow> from_dict (to_dict a) = post_init a"
  by (cases a) (simp add: from_dict_def to_dict_def anomaly_type_roundtrip severity_roundtrip)

lemma to_dict_no_analysis: "d_llm_analysis (to_dict a) = None"
  by (simp add: to_dict_def)

lemma from_dict_ignores_llm_keys:
  "from_dict (d\<lparr> d_llm_validation := x, d_llm_analysis := y, d_llm_model := z \<rparr>) = from_dict d"
  by (simp add: from_dict_def split: sum.splits)

text \<open>
  A call of the client that adds no analysis: it raises, or it returns a result
  whose analysis is \<open>None\<close> or empty (what the shipped client returns when the
  model call fails).
\<close>

lemma validate_one_unhelpful:
  assumes "(\<exists>e. client (to_dict a) = Inl e) \<or>
           (\<exists>r. client (to_dict a) = Inr r \<and> (r_llm_analysis r = None \<or> r_llm_analysis r = Some []))"
  shows "\<exists>d. validate_one client True a acc = acc @ [d] \<and>
             from_dict d = from_dict (to_dict a) \<and>
             (d_llm_analysis d = None \<or> d_llm_analysis d = Some [])"
  using assms
  by (auto simp: validate_one_def Let_def from_dict_ignores_llm_keys to_dict_no_analysis)

lemma validate_loop_unhelpful:
  assumes "\<forall>d. (\<exists>e. client d = Inl e) \<or>
               (\<exists>r. client d = Inr r \<and> (r_llm_analysis r = None \<or> r_llm_analysis r = Some []))"
  shows "\<exists>ds. foldl (\<lambda>validated anomaly. validate_one client True anomaly validated) acc xs =
              acc @ ds \<and>
            list_all2 (\<lambda>d a. from_dict d = from_dict (to_dict a) \<and>
                              (d_llm_analysis d = None \<or> d_llm_analysis d = Some [])) ds xs"
proof (induction xs arbitrary: acc)
  case Nil
  show ?case by simp
next
  case (Cons a xs)
  from validate_one_unhelpful[of client a acc] assms obtain d where
    d: "validate_one client True a acc = acc @ [d]"
       "from_dict d = from_dict (to_dict a)"
       "d_llm_analysis d = None \<or> d_llm_analysis d = Some []"
    by blast
  from Cons.IH[of "acc @ [d]"] obtain ds where
    ds: "foldl (\<lambda>validated anomaly. validate_one client True anomaly validated) (acc @ [d]) xs =
           (acc @ [d]) @ ds"
        "list_all2 (\<lambda>d a. from_dict d = from_dict (to_dict a) \<and>
                              (d_llm_analysis d = None \<or> d_llm_analysis d = Some [])) ds xs"
    by blast
  show ?case
    by (rule exI[of _ "d # ds"]) (simp add: d ds)
qed

lemma validate_one_length:
  "length (validate_one client True a acc) = Suc (length acc)"
  by (simp add: validate_one_def Let_def split: sum.splits)

lemma validate_loop_length:
  "length (foldl (\<lambda>validated anomaly. validate_one client True anomaly validated) acc xs) =
     length acc + length xs"
  by (induction xs arbitrary: acc) (simp_all add: validate_one_length)

lemma rebuild_length:
  "rebuild items acc = Inr out \<Longrightarrow> length out = length acc + length items"
proof (induction items acc arbitrary: out rule: rebuild.induct)
  case (1 result)
  then show ?case by simp
next
  case (2 item rest result)
  from "2.prems" obtain anomaly where f: "from_dict item = Inr anomaly"
    by (auto split: sum.splits)
  with "2.prems" "2.IH"[OF f refl] show ?case
    by (auto simp: Let_def)
qed

lemma rebuild_plain:
  "\<forall>a \<in> set xs. \<not> llm_validated a \<and> llm_status a = None \<Longrightarrow>
   list_all2 (\<lambda>d a. from_dict d = from_dict (to_dict a) \<and>
                     (d_llm_analysis d = None \<or> d_llm_analysis d = Some [])) ds xs \<Longrightarrow>
   rebuild ds acc = Inr out \<Longrightarrow> out = acc @ xs"
proof (induction ds arbitrary: acc xs)
  case Nil
  then show ?case by simp
next
  case (Cons d ds)
  from Cons.prems(2) obtain a xs' where xs: "xs = a # xs'"
    and da: "from_dict d = from_dict (to_dict a)"
            "d_llm_analysis d = None \<or> d_llm_analysis d = Some []"
    and rest: "list_all2 (\<lambda>d a. from_dict d = from_dict (to_dict a) \<and>
                     (d_llm_analysis d = None \<or> d_llm_analysis d = Some [])) ds xs'"
    by (auto simp: list_all2_Cons1)
  from Cons.prems(1) xs have fd: "from_dict d = post_init a"
    by (simp add: da(1) from_dict_to_dict)
  from Cons.prems(3) fd obtain b where b: "post_init a = Inr b"
    by (auto split: sum.splits)
  then have "b = a" by (auto dest: post_init_Inr)
  with b fd Cons.prems(3) da(2) have "rebuild ds (acc @ [a]) = Inr out"
    by auto
  with Cons.IH[of xs' "acc @ [a]"] Cons.prems(1) rest xs show ?case by simp
qed

text \<open>
  C4. With a validator that is not enabled without a client (as its constructor
  guarantees), the cycle ends with as many anomalies as the detectors produced.
  When the enrichment step raises, the cycle keeps the batch it had. When every
  call of the client fails, by raising or by returning no analysis, the batch of
  freshly detected anomalies comes out unchanged.
\<close>

theorem enrichment_fallback:
  "((v_enabled v \<longrightarrow> v_client v \<noteq> None) \<longrightarrow> length (finish_cycle v raw) = length raw) \<and>
   (enrich_with_llm v raw = Inl e \<longrightarrow> finish_cycle v raw = raw) \<and>
   (v_client v = Some client \<and>
    (\<forall>d. (\<exists>e'. client d = Inl e') \<or>
         (\<exists>r. client d = Inr r \<and> (r_llm_analysis r = None \<or> r_llm_analysis r = Some []))) \<and>
    (\<forall>a \<in> set raw. \<not> llm_validated a \<and> llm_status a = None) \<longrightarrow>
      finish_cycle v raw = raw)"
proof (intro conjI impI)
  assume c: "v_enabled v \<longrightarrow> v_client v \<noteq> None"
  show "length (finish_cycle v raw) = length raw"
  proof (cases "v_enabled v \<and> raw \<noteq> []")
    case False
    then show ?thesis by (auto simp: finish_cycle_def)
  next
    case True
    with c obtain client where cl: "v_client v = Some client" by auto
    show ?thesis
    proof (cases "enrich_with_llm v raw")
      case (Inl x)
      with True show ?thesis by (simp add: finish_cycle_def)
    next
      case (Inr out)
      then have "length out = length (validate_anomalies v raw True)"
        by (auto simp: enrich_with_llm_def dest: rebuild_length)
      also have "\<dots> = length raw"
        using True cl by (simp add: validate_anomalies_def validate_loop_length)
      finally show ?thesis using True Inr by (simp add: finish_cycle_def)
    qed
  qed
next
  assume "enrich_with_llm v raw = Inl e"
  then show "finish_cycle v raw = raw" by (simp add: finish_cycle_def)
next
  assume a: "v_client v = Some client \<and>
    (\<forall>d. (\<exists>e'. client d = Inl e') \<or>
         (\<exists>r. client d = Inr r \<and> (r_llm_analysis r = None \<or> r_llm_analysis r = Some []))) \<and>
    (\<forall>a \<in> set raw. \<not> llm_validated a \<and> llm_status a = None)"
  show "finish_cycle v raw = raw"
  proof (cases "v_enabled v \<and> raw \<noteq> []")
    case False
    then show ?thesis by (auto simp: finish_cycle_def)
  next
    case True
    from a validate_loop_unhelpful[of client "[]" raw] obtain ds where
      ds: "foldl (\<lambda>validated anomaly. validate_one client True anomaly validated) [] raw = ds"
          "list_all2 (\<lambda>d a. from_dict d = from_dict (to_dict a) \<and>
                              (d_llm_analysis d = None \<or> d_llm_analysis d = Some [])) ds raw"
      by auto
    with a True have va: "validate_anomalies v raw True = ds"
      by (simp add: validate_anomalies_def)
    show ?thesis
    proof (cases "enrich_with_llm v raw")
      case (Inl x)
      with True show ?thesis by (simp add: finish_cycle_def)
    next
      case (Inr out)
      with va have "rebuild ds [] = Inr out" by (simp add: enrich_with_llm_def)
      with a ds(2) have "out = raw" using rebuild_plain[of raw ds "[]" out] by simp
      with True Inr show ?thesis by (simp add: finish_cycle_def)
    qed
  qed
qed

lemma spike_body_fresh:
  "spike_body cfg metric i = Inr (Some a) \<Longrightarrow> \<not> llm_validated a \<and> llm_status a = None"
  unfolding spike_body_def Let_def
  by (auto split: option.splits if_splits sum.splits dest: create_anomaly_labels)

lemma spike_detect_fresh:
  "spike_detect cfg metric = Inr out \<Longrightarrow> \<forall>a \<in> set out. \<not> llm_validated a \<and> llm_status a = None"
  unfolding spike_detect_def
  by (auto split: if_splits
        dest!: emit_loop_all[where P = "\<lambda>a. \<not> llm_validated a \<and> llm_status a = None"]
        dest: spike_body_fresh)

lemma failing_validator_fields:
  "v_enabled failing_validator" "v_client failing_validator = Some failing_client"
  by (simp_all add: failing_validator_def llm_validator_init_def)

lemma tampered_enrichment: "enrich_with_llm failing_validator [tampered_anomaly] = Inl ValueError"
  by (simp add: enrich_with_llm_def validate_anomalies_def failing_validator_fields
        validate_one_def failing_client_def from_dict_def to_dict_def tampered_anomaly_def
        anomaly_type_of_def severity_of_def post_init_def)

theorem enrichment_fallback_witness:
  "\<exists>a b. spike_detect spike_defaults spike_scenario = Inr [a, b] \<and>
      v_enabled failing_validator \<and> v_client failing_validator = Some failing_client \<and>
      failing_client (to_dict a) = Inl LLMError \<and> failing_client (to_dict b) = Inl LLMError \<and>
      \<not> llm_validated a \<and> llm_status a = None \<and> \<not> llm_validated b \<and> llm_status b = None \<and>
      finish_cycle failing_validator [a, b] = [a, b] \<and>
      length (finish_cycle failing_validator [a, b]) = length [a, b] \<and>
      enrich_with_llm failing_validator [tampered_anomaly] = Inl ValueError \<and>
      finish_cycle failing_validator [tampered_anomaly] = [tampered_anomaly]"
proof -
  from spike_scenario_run obtain a b where
    ab: "spike_detect spike_defaults spike_scenario = Inr [a, b]" by blast
  from spike_detect_fresh[OF ab] have
    fr: "\<not> llm_validated a" "llm_status a = None" "\<not> llm_validated b" "llm_status b = None"
    by simp_all
  have fc: "\<forall>d. \<exists>e'. failing_client d = Inl e'" by (simp add: failing_client_def)
  have k1: "finish_cycle failing_validator [a, b] = [a, b]"
    using enrichment_fallback[where v = failing_validator and raw = "[a, b]"
        and client = failing_client, THEN conjunct2, THEN conjunct2]
      failing_validator_fields fc fr by simp
  have k2: "length (finish_cycle failing_validator [a, b]) = length [a, b]"
    using enrichment_fallback[where v = failing_validator and raw = "[a, b]", THEN conjunct1]
      failing_validator_fields by simp
  have k3: "finish_cycle failing_validator [tampered_anomaly] = [tampered_anomaly]"
    using enrichment_fallback[where v = failing_validator and raw = "[tampered_anomaly]"
        and e = ValueError, THEN conjunct2, THEN conjunct1]
      tampered_enrichment by simp
  show ?thesis
    apply (rule exI[of _ a], rule exI[of _ b])
    apply (simp only: ab failing_validator_fields fr k1 k2 k3 tampered_enrichment
        failing_client_def)
    apply simp
    done
qed

end
